theory Spec2Isabelle
  imports Main
begin

section \<open>Values, errors and the credentials block\<close>

text \<open>
  The values a connect-parameter dictionary of \<^verbatim>\<open>database.py\<close> holds: Python's
  \<^verbatim>\<open>None\<close>, plain strings and bytes, booleans, and pydantic's wrapped secrets
  (\<^verbatim>\<open>SecretStr\<close>, \<^verbatim>\<open>SecretBytes\<close>), which only \<^verbatim>\<open>get_secret_value()\<close> opens.
\<close>

datatype pval =
    PNone
  | PStr string
  | PBytes string
  | PBool bool
  | PSecretStr string
  | PSecretBytes string

text \<open>
  Every exception the modelled code can raise or let through. \<open>KeyError\<close> and
  \<open>AttributeError\<close> are Python's own; \<open>ResolveError\<close> is whatever
  \<^verbatim>\<open>resolve_private_key\<close> raises on a key it cannot decode; the others are the
  driver's failures, named as the specification's taxonomy names them.
\<close>

datatype error =
    KeyError
  | AttributeError
  | ResolveError
  | ConnectionError
  | SubmissionError
  | StatusError
  | ProgrammingError
  | Cancelled

type_synonym connect_params = "string \<rightharpoonup> pval"

text \<open>
  \<^verbatim>\<open>SnowflakeCredentials\<close> is imported from the package and is not part of
  \<^verbatim>\<open>database.py\<close>. The connector only calls two of its methods, so the block is
  represented by what those two calls return: \<open>dict\<close> is the result of
  \<^verbatim>\<open>credentials.dict()\<close> (every field, unset ones mapped to \<^verbatim>\<open>None\<close>), and
  \<open>resolve_private_key\<close> the result of \<^verbatim>\<open>credentials.resolve_private_key()\<close>:
  an exception, \<^verbatim>\<open>None\<close>, or the DER bytes of the key.
\<close>

record SnowflakeCredentials =
  dict :: connect_params
  resolve_private_key :: "error + string option"

record SnowflakeConnector =
  database :: string
  warehouse :: string
  schema_name :: string
  credentials :: SnowflakeCredentials

section \<open>The connection configurator: \<^verbatim>\<open>_get_connect_params\<close>\<close>

text \<open>Lines 54--61: the literal dictionary, with the credentials' fields spliced in last.\<close>

definition base_params :: "SnowflakeConnector \<Rightarrow> connect_params" where
  "base_params self =
     [''database'' \<mapsto> PStr (database self),
      ''warehouse'' \<mapsto> PStr (warehouse self),
      ''schema'' \<mapsto> PStr (schema_name self),
      ''application'' \<mapsto> PStr ''Prefect_Snowflake_Collection'']"

definition merged_params :: "SnowflakeConnector \<Rightarrow> connect_params" where
  "merged_params self = base_params self ++ dict (credentials self)"

text \<open>Lines 63--66: the comprehension keeps the items whose value is not \<^verbatim>\<open>None\<close>.\<close>

definition filter_unset :: "connect_params \<Rightarrow> connect_params" where
  "filter_unset cp = (\<lambda>param. case cp param of Some PNone \<Rightarrow> None | v \<Rightarrow> v)"

text \<open>
  \<^verbatim>\<open>get_secret_value()\<close> exists on the two secret wrappers only; on any other value
  the attribute lookup raises.
\<close>

fun get_secret_value :: "pval \<Rightarrow> error + pval" where
  "get_secret_value (PSecretStr s) = Inr (PStr s)"
| "get_secret_value (PSecretBytes b) = Inr (PBytes b)"
| "get_secret_value _ = Inl AttributeError"

text \<open>Lines 68--70: the loop over the three secret fields, one field per step.\<close>

fun reveal_secrets :: "string list \<Rightarrow> connect_params \<Rightarrow> error + connect_params" where
  "reveal_secrets [] cp = Inr cp"
| "reveal_secrets (param # rest) cp =
     (case cp param of
        None \<Rightarrow> reveal_secrets rest cp
      | Some v \<Rightarrow>
          (case get_secret_value v of
             Inl e \<Rightarrow> Inl e
           | Inr plain \<Rightarrow> reveal_secrets rest (cp(param \<mapsto> plain))))"

definition secret_fields :: "string list" where
  "secret_fields = [''password'', ''private_key'', ''token'']"

text \<open>
  Lines 72--74: \<^verbatim>\<open>pop("okta_endpoint")\<close> has no default, so it raises
  \<open>KeyError\<close> when the key is absent; it runs before the assignment.
\<close>

definition substitute_okta :: "connect_params \<Rightarrow> error + connect_params" where
  "substitute_okta cp =
     (if cp ''authenticator'' = Some (PStr ''okta_endpoint'') then
        (case cp ''okta_endpoint'' of
           None \<Rightarrow> Inl KeyError
         | Some endpoint \<Rightarrow> Inr ((cp(''okta_endpoint'' := None))(''authenticator'' \<mapsto> endpoint)))
      else Inr cp)"

text \<open>Lines 76--79: a resolved key is stored and the password dropped.\<close>

definition apply_private_key :: "SnowflakeCredentials \<Rightarrow> connect_params \<Rightarrow> error + connect_params" where
  "apply_private_key creds cp =
     (case resolve_private_key creds of
        Inl e \<Rightarrow> Inl e
      | Inr None \<Rightarrow> Inr cp
      | Inr (Some private_der_key) \<Rightarrow>
          Inr ((cp(''private_key'' \<mapsto> PBytes private_der_key))(''password'' := None)))"

definition get_connect_params :: "SnowflakeConnector \<Rightarrow> error + connect_params" where
  "get_connect_params self =
     (case reveal_secrets secret_fields (filter_unset (merged_params self)) of
        Inl e \<Rightarrow> Inl e
      | Inr cp1 \<Rightarrow>
          (case substitute_okta cp1 of
             Inl e \<Rightarrow> Inl e
           | Inr cp2 \<Rightarrow> apply_private_key (credentials self) cp2))"

text \<open>A field is populated when the dictionary holds it with a value other than \<^verbatim>\<open>None\<close>.\<close>

definition populated :: "connect_params \<Rightarrow> string \<Rightarrow> bool" where
  "populated cp param = (case cp param of None \<Rightarrow> False | Some PNone \<Rightarrow> False | Some _ \<Rightarrow> True)"

section \<open>The driver, as the code sees it\<close>

text \<open>
  The Snowflake driver is an external collaborator. Its answers are data of the model,
  and what the code does with the driver is recorded as a trace of events, so that
  statements about what was or was not called, and in which order, can be read
  off the trace.
\<close>

datatype QueryStatus = Running | Succeeded | FailedWithError

text \<open>
  \<^verbatim>\<open>connection.get_query_status_throw_if_error\<close> hands the status back unless it is an
  error status, which it raises; \<^verbatim>\<open>connection.is_still_running\<close> is true of the
  running status only.
\<close>

fun get_query_status_throw_if_error :: "QueryStatus \<Rightarrow> error + QueryStatus" where
  "get_query_status_throw_if_error FailedWithError = Inl StatusError"
| "get_query_status_throw_if_error s = Inr s"

fun is_still_running :: "QueryStatus \<Rightarrow> bool" where
  "is_still_running Running = True"
| "is_still_running _ = False"

type_synonym row = "pval list"

datatype bindings = NoParams | Positional "pval list" | Named "(string \<times> pval) list"

datatype cursor_type = SnowflakeCursor | DictCursor

datatype event =
    Connect
  | CloseConnection
  | OpenCursor cursor_type
  | CloseCursor
  | ExecuteAsync string bindings
  | GetQueryStatus nat QueryStatus
  | Sleep int
  | GetResultsFromSfqid nat
  | FetchOne
  | FetchMany "int option"
  | FetchAll

text \<open>
  How the server treats one submitted statement: \<open>execute_async\<close> is what
  \<^verbatim>\<open>cursor.execute_async\<close> does (raise, or answer with a query id), \<open>statuses\<close> the
  statuses that successive status checks observe, \<open>cancelled_during\<close> the sleep of
  the poll loop (counted from 0) during which the surrounding task is cancelled, if any,
  and \<open>rows\<close> what the cursor holds once the results are loaded.
\<close>

record query_run =
  execute_async :: "error + nat"
  statuses :: "QueryStatus list"
  cancelled_during :: "nat option"
  rows :: "row list"

text \<open>
  \<open>connect\<close> is \<^verbatim>\<open>snowflake.connector.connect(**connect_params)\<close>: it raises or it
  opens the session. The driver calls that can raise in the model are connect,
  \<^verbatim>\<open>execute_async\<close>, the status check, the sleep (by cancellation) and
  \<^verbatim>\<open>fetchmany\<close>; creating a cursor, loading results and the other fetch calls
  are taken to succeed. \<open>server n query params\<close> is the treatment of the statement
  submitted as the \<open>n\<close>-th one of a session. \<open>arraysize\<close> is the cursor's own
  batch size, used by \<^verbatim>\<open>fetchmany\<close> when no size is given.
\<close>

record driver =
  connect :: "connect_params \<Rightarrow> error option"
  server :: "nat \<Rightarrow> string \<Rightarrow> bindings \<Rightarrow> query_run"
  arraysize :: nat

text \<open>
  A computation leaves a trace and either raises or returns. One that never returns
  (a poll loop whose query runs forever) is \<open>None\<close>.
\<close>

type_synonym 'a outcome = "event list \<times> (error + 'a)"

definition BEGIN_TRANSACTION_STATEMENT :: string where
  "BEGIN_TRANSACTION_STATEMENT = ''BEGIN TRANSACTION''"

definition END_TRANSACTION_STATEMENT :: string where
  "END_TRANSACTION_STATEMENT = ''COMMIT''"

section \<open>Sessions and cursors\<close>

text \<open>Lines 119--122: the resolved parameters, the autocommit flag, the driver's connect.\<close>

definition get_connection :: "SnowflakeConnector \<Rightarrow> driver \<Rightarrow> bool \<Rightarrow> error + unit" where
  "get_connection self drv autocommit =
     (case get_connect_params self of
        Inl e \<Rightarrow> Inl e
      | Inr connect_params \<Rightarrow>
          (case connect drv (connect_params(''autocommit'' \<mapsto> PBool autocommit)) of
             Some e \<Rightarrow> Inl e
           | None \<Rightarrow> Inr ()))"

text \<open>
  \<^verbatim>\<open>with connection.cursor(cursor_type) as cursor:\<close> and
  \<^verbatim>\<open>with self.get_connection() as connection:\<close>. The exit of a \<^verbatim>\<open>with\<close> block runs
  however the body ends, so the closing event follows the body's trace whether the
  body returned or raised. A failing \<open>get_connection\<close> never enters the block.
\<close>

definition with_cursor :: "cursor_type \<Rightarrow> 'a outcome option \<Rightarrow> 'a outcome option" where
  "with_cursor ct body =
     (case body of
        None \<Rightarrow> None
      | Some (tr, r) \<Rightarrow> Some (OpenCursor ct # tr @ [CloseCursor], r))"

definition with_connection ::
  "SnowflakeConnector \<Rightarrow> driver \<Rightarrow> 'a outcome option \<Rightarrow> 'a outcome option" where
  "with_connection self drv body =
     (case get_connection self drv True of
        Inl e \<Rightarrow> Some ([], Inl e)
      | Inr _ \<Rightarrow>
          (case body of
             None \<Rightarrow> None
           | Some (tr, r) \<Rightarrow> Some (Connect # tr @ [CloseConnection], r)))"

section \<open>The asynchronous executor\<close>

text \<open>
  The poll loop (lines 142--145, and again 340--343 and 419--422):
  \<^verbatim>\<open>
  while connection.is_still_running(
      connection.get_query_status_throw_if_error(query_id)
  ):
      await asyncio.sleep(interval_seconds)
  \<close>
  The recursion is on the statuses still to be observed; \<open>i\<close> counts the sleeps
  begun so far. A cancelled sleep raises out of the loop. When the observations end
  with the query still running, the loop has not returned.
\<close>

fun poll :: "int \<Rightarrow> nat \<Rightarrow> nat option \<Rightarrow> nat \<Rightarrow> QueryStatus list \<Rightarrow> unit outcome option" where
  "poll interval_seconds query_id cancel i [] = None"
| "poll interval_seconds query_id cancel i (s # later) =
     (case get_query_status_throw_if_error s of
        Inl e \<Rightarrow> Some ([GetQueryStatus query_id s], Inl e)
      | Inr status \<Rightarrow>
          if is_still_running status then
            (if cancel = Some i then
               Some ([GetQueryStatus query_id s, Sleep interval_seconds], Inl Cancelled)
             else
               (case poll interval_seconds query_id cancel (Suc i) later of
                  None \<Rightarrow> None
                | Some (tr, r) \<Rightarrow>
                    Some (GetQueryStatus query_id s # Sleep interval_seconds # tr, r)))
          else Some ([GetQueryStatus query_id s], Inr ()))"

text \<open>
  Submit, poll, load (lines 138--146; the same statements stand at 338--344 and
  417--423): \<^verbatim>\<open>execute_async\<close>, the poll loop on the returned query id, then
  \<^verbatim>\<open>cursor.get_results_from_sfqid(query_id)\<close>.
\<close>

definition submit_and_poll :: "query_run \<Rightarrow> string \<Rightarrow> bindings \<Rightarrow> int \<Rightarrow> unit outcome option" where
  "submit_and_poll run operation parameters interval_seconds =
     (case execute_async run of
        Inl e \<Rightarrow> Some ([ExecuteAsync operation parameters], Inl e)
      | Inr query_id \<Rightarrow>
          (case poll interval_seconds query_id (cancelled_during run) 0 (statuses run) of
             None \<Rightarrow> None
           | Some (tr, Inl e) \<Rightarrow> Some (ExecuteAsync operation parameters # tr, Inl e)
           | Some (tr, Inr _) \<Rightarrow>
               Some (ExecuteAsync operation parameters # tr @ [GetResultsFromSfqid query_id],
                     Inr ())))"

text \<open>
  \<^verbatim>\<open>_async_execute_operation\<close> is a context manager: it yields the loaded cursor to
  the body of the caller's \<^verbatim>\<open>async with\<close>, here \<open>body\<close>, and closes cursor and
  session when that body is left. The extra keyword arguments are handed to the driver
  unchanged and are part of how the server treats the statement.
\<close>

definition async_execute_operation ::
  "SnowflakeConnector \<Rightarrow> driver \<Rightarrow> string \<Rightarrow> bindings \<Rightarrow> cursor_type \<Rightarrow> int
     \<Rightarrow> (query_run \<Rightarrow> 'a outcome) \<Rightarrow> 'a outcome option" where
  "async_execute_operation self drv operation parameters ct interval_seconds body =
     with_connection self drv
       (with_cursor ct
          (let run = server drv 0 operation parameters in
           case submit_and_poll run operation parameters interval_seconds of
             None \<Rightarrow> None
           | Some (tr, Inl e) \<Rightarrow> Some (tr, Inl e)
           | Some (tr, Inr _) \<Rightarrow> (case body run of (tr', r) \<Rightarrow> Some (tr @ tr', r))))"

text \<open>
  The cursor's fetch calls. \<^verbatim>\<open>fetchmany(size)\<close> returns at most \<open>size\<close> rows (here \<open>batch\<close>),
  the cursor's own \<open>arraysize\<close> when the size is \<^verbatim>\<open>None\<close>, and rejects a
  negative size.
\<close>

definition fetchone :: "row list \<Rightarrow> row option" where
  "fetchone rs = (case rs of [] \<Rightarrow> None | r # _ \<Rightarrow> Some r)"

definition fetchmany :: "nat \<Rightarrow> int option \<Rightarrow> row list \<Rightarrow> error + row list" where
  "fetchmany default_size batch rs =
     (case batch of
        None \<Rightarrow> Inr (take default_size rs)
      | Some n \<Rightarrow> if n < 0 then Inl ProgrammingError else Inr (take (nat n) rs))"

text \<open>A keyword argument with a default: \<open>None\<close> is a call that does not pass it.\<close>

fun default_arg :: "'a \<Rightarrow> 'a option \<Rightarrow> 'a" where
  "default_arg d None = d"
| "default_arg d (Some v) = v"

definition fetch_one ::
  "SnowflakeConnector \<Rightarrow> driver \<Rightarrow> string \<Rightarrow> bindings \<Rightarrow> cursor_type \<Rightarrow> int
     \<Rightarrow> row option outcome option" where
  "fetch_one self drv operation parameters ct interval_seconds =
     async_execute_operation self drv operation parameters ct interval_seconds
       (\<lambda>run. ([FetchOne], Inr (fetchone (rows run))))"

text \<open>Line 190: \<^verbatim>\<open>limit: Optional[int] = 5\<close>; line 220: \<^verbatim>\<open>cursor.fetchmany(size=limit)\<close>.\<close>

definition fetch_many ::
  "SnowflakeConnector \<Rightarrow> driver \<Rightarrow> string \<Rightarrow> bindings \<Rightarrow> int option option \<Rightarrow> cursor_type
     \<Rightarrow> int \<Rightarrow> row list outcome option" where
  "fetch_many self drv operation parameters limit_arg ct interval_seconds =
     (let limit = default_arg (Some 5) limit_arg in
      async_execute_operation self drv operation parameters ct interval_seconds
        (\<lambda>run. ([FetchMany limit], fetchmany (arraysize drv) limit (rows run))))"

definition fetch_all ::
  "SnowflakeConnector \<Rightarrow> driver \<Rightarrow> string \<Rightarrow> bindings \<Rightarrow> cursor_type \<Rightarrow> int
     \<Rightarrow> row list outcome option" where
  "fetch_all self drv operation parameters ct interval_seconds =
     async_execute_operation self drv operation parameters ct interval_seconds
       (\<lambda>run. ([FetchAll], Inr (rows run)))"

text \<open>\<^verbatim>\<open>snowflake_query\<close>, lines 336--346.\<close>

definition snowflake_query ::
  "string \<Rightarrow> SnowflakeConnector \<Rightarrow> driver \<Rightarrow> bindings \<Rightarrow> cursor_type \<Rightarrow> int
     \<Rightarrow> row list outcome option" where
  "snowflake_query query snowflake_connector drv params ct poll_frequency_seconds =
     with_connection snowflake_connector drv
       (with_cursor ct
          (let run = server drv 0 query params in
           case submit_and_poll run query params poll_frequency_seconds of
             None \<Rightarrow> None
           | Some (tr, Inl e) \<Rightarrow> Some (tr, Inl e)
           | Some (tr, Inr _) \<Rightarrow> Some (tr @ [FetchAll], Inr (rows run))))"

section \<open>The multi-operation runner\<close>

text \<open>
  Python's \<^verbatim>\<open>xs[start:stop]\<close> with step 1: a negative bound counts from the end, and
  both bounds are clipped to the list.
\<close>

definition py_bound :: "nat \<Rightarrow> int \<Rightarrow> nat" where
  "py_bound n i = (if i < 0 then nat (max 0 (int n + i)) else min (nat i) n)"

definition py_slice :: "'a list \<Rightarrow> int \<Rightarrow> int \<Rightarrow> 'a list" where
  "py_slice xs start stop =
     (let lo = py_bound (length xs) start; hi = py_bound (length xs) stop
      in take (hi - lo) (drop lo xs))"

text \<open>
  The \<^verbatim>\<open>for query in queries\<close> loop, lines 416--425; \<open>n\<close> counts the statements
  submitted on the session so far, \<open>results\<close> is the list being appended to.
\<close>

fun run_queries ::
  "driver \<Rightarrow> bindings \<Rightarrow> int \<Rightarrow> nat \<Rightarrow> string list \<Rightarrow> row list list
     \<Rightarrow> row list list outcome option" where
  "run_queries drv params poll_frequency_seconds n [] results = Some ([], Inr results)"
| "run_queries drv params poll_frequency_seconds n (query # rest) results =
     (let run = server drv n query params in
      case submit_and_poll run query params poll_frequency_seconds of
        None \<Rightarrow> None
      | Some (tr, Inl e) \<Rightarrow> Some (tr, Inl e)
      | Some (tr, Inr _) \<Rightarrow>
          (case run_queries drv params poll_frequency_seconds (Suc n) rest
                  (results @ [rows run]) of
             None \<Rightarrow> None
           | Some (tr', r) \<Rightarrow> Some (tr @ FetchAll # tr', r)))"

text \<open>
  The function body of \<^verbatim>\<open>snowflake_multiquery\<close>, lines 409--431, without the
  \<^verbatim>\<open>@task\<close> decorator of line 349. \<^verbatim>\<open>queries.insert\<close> and
  \<^verbatim>\<open>queries.append\<close> change the list object the body was handed, so that list, as
  the body leaves it, is returned beside the outcome. Whose list object that is depends
  on how the body is reached; see the end of this section.
\<close>

definition snowflake_multiquery ::
  "string list \<Rightarrow> SnowflakeConnector \<Rightarrow> driver \<Rightarrow> bindings \<Rightarrow> cursor_type \<Rightarrow> bool \<Rightarrow> bool
     \<Rightarrow> int \<Rightarrow> (string list \<times> row list list outcome) option" where
  "snowflake_multiquery queries snowflake_connector drv params ct as_transaction
       return_transaction_control_results poll_frequency_seconds =
     (case get_connection snowflake_connector drv True of
        Inl e \<Rightarrow> Some (queries, [], Inl e)
      | Inr _ \<Rightarrow>
          (let queries' =
                 (if as_transaction
                  then BEGIN_TRANSACTION_STATEMENT # queries @ [END_TRANSACTION_STATEMENT]
                  else queries)
           in case with_cursor ct
                     (run_queries drv params poll_frequency_seconds 0 queries' []) of
                None \<Rightarrow> None
              | Some (tr, Inl e) \<Rightarrow> Some (queries', Connect # tr @ [CloseConnection], Inl e)
              | Some (tr, Inr results) \<Rightarrow>
                  Some (queries', Connect # tr @ [CloseConnection],
                        Inr (if as_transaction \<and> \<not> return_transaction_control_results
                             then py_slice results 1 (- 1)
                             else results))))"





section \<open>Reading a trace\<close>

fun is_sleep :: "event \<Rightarrow> bool" where
  "is_sleep (Sleep _) = True"
| "is_sleep _ = False"

fun reports_running :: "event \<Rightarrow> bool" where
  "reports_running (GetQueryStatus _ s) = is_still_running s"
| "reports_running _ = False"

fun is_status_check :: "event \<Rightarrow> bool" where
  "is_status_check (GetQueryStatus _ _) = True"
| "is_status_check _ = False"

text \<open>Loading the results of a query into the cursor, and every fetch call.\<close>

fun is_fetch :: "event \<Rightarrow> bool" where
  "is_fetch (GetResultsFromSfqid _) = True"
| "is_fetch FetchOne = True"
| "is_fetch (FetchMany _) = True"
| "is_fetch FetchAll = True"
| "is_fetch _ = False"

definition suspensions :: "event list \<Rightarrow> nat" where
  "suspensions tr = length (filter is_sleep tr)"

definition running_reports :: "event list \<Rightarrow> nat" where
  "running_reports tr = length (filter reports_running tr)"

definition before_fetch :: "event list \<Rightarrow> event list" where
  "before_fetch tr = takeWhile (\<lambda>e. \<not> is_fetch e) tr"

text \<open>The statuses the status checks of a trace observed, and the statements it submitted.\<close>

fun observed :: "event list \<Rightarrow> QueryStatus list" where
  "observed [] = []"
| "observed (GetQueryStatus _ s # tr) = s # observed tr"
| "observed (_ # tr) = observed tr"

fun submitted :: "event list \<Rightarrow> string list" where
  "submitted [] = []"
| "submitted (ExecuteAsync query _ # tr) = query # submitted tr"
| "submitted (_ # tr) = submitted tr"

text \<open>
  A statement settles with a status when its submission is accepted, that status is
  the first observed one that is not running, and no cancellation arrives in a sleep
  before it. It completes when it settles with success; its status check raises when
  it settles with the error status.
\<close>

definition settles :: "QueryStatus \<Rightarrow> query_run \<Rightarrow> bool" where
  "settles final run =
     (case execute_async run of
        Inl _ \<Rightarrow> False
      | Inr _ \<Rightarrow>
          (case dropWhile is_still_running (statuses run) of
             [] \<Rightarrow> False
           | s # _ \<Rightarrow>
               s = final \<and>
               (case cancelled_during run of
                  None \<Rightarrow> True
                | Some j \<Rightarrow> length (takeWhile is_still_running (statuses run)) \<le> j)))"

definition completes :: "query_run \<Rightarrow> bool" where
  "completes run = settles Succeeded run"

definition status_check_raises :: "query_run \<Rightarrow> bool" where
  "status_check_raises run = settles FailedWithError run"

text \<open>
  The result sets of the statements \<open>qs\<close> when they are submitted as the \<open>n\<close>-th
  and following statements of a session, in the order of \<open>qs\<close>.
\<close>

definition result_sets :: "driver \<Rightarrow> bindings \<Rightarrow> nat \<Rightarrow> string list \<Rightarrow> row list list" where
  "result_sets drv params n qs =
     map (\<lambda>(i, query). rows (server drv i query params)) (zip [n ..< n + length qs] qs)"

section \<open>Concrete blocks and drivers\<close>

definition example_credentials :: SnowflakeCredentials where
  "example_credentials =
     \<lparr>dict = [''account'' \<mapsto> PStr ''acct'', ''user'' \<mapsto> PStr ''me'',
              ''password'' \<mapsto> PSecretStr ''hunter2'', ''private_key'' \<mapsto> PNone,
              ''authenticator'' \<mapsto> PStr ''okta_endpoint'', ''token'' \<mapsto> PNone,
              ''okta_endpoint'' \<mapsto> PStr ''https://acct.okta.com'', ''role'' \<mapsto> PNone,
              ''autocommit'' \<mapsto> PNone],
      resolve_private_key = Inr None\<rparr>"

definition example_connector :: SnowflakeConnector where
  "example_connector =
     \<lparr>database = ''db'', warehouse = ''wh'', schema_name = ''public'',
      credentials = example_credentials\<rparr>"

definition key_connector :: SnowflakeConnector where
  "key_connector =
     example_connector\<lparr>credentials :=
       \<lparr>dict = (dict example_credentials)(''private_key'' \<mapsto> PSecretBytes ''PEM''),
        resolve_private_key = Inr (Some ''DER'')\<rparr>\<rparr>"

text \<open>
  A server on which every statement runs through two running reports and then
  succeeds with seven rows; one that cancels the task in the second sleep; and one
  whose second statement fails while it runs.
\<close>

definition example_run :: "nat \<Rightarrow> string \<Rightarrow> query_run" where
  "example_run n query =
     \<lparr>execute_async = Inr (100 + n), statuses = [Running, Running, Succeeded],
      cancelled_during = None, rows = replicate 7 [PStr query]\<rparr>"

definition example_driver :: driver where
  "example_driver =
     \<lparr>connect = (\<lambda>_. None), server = (\<lambda>n query _. example_run n query), arraysize = 1\<rparr>"

definition cancelling_driver :: driver where
  "cancelling_driver =
     example_driver\<lparr>server := (\<lambda>n query _. (example_run n query)\<lparr>cancelled_during := Some 1\<rparr>)\<rparr>"

definition failing_driver :: driver where
  "failing_driver =
     example_driver\<lparr>server := (\<lambda>n query _.
        if n = 1 then (example_run n query)\<lparr>statuses := [Running, FailedWithError]\<rparr>
        else example_run n query)\<rparr>"

section \<open>Properties of the connection configurator\<close>

lemma reveal_secrets_dom:
  "reveal_secrets ps cp = Inr cp' \<Longrightarrow> (cp' param = None) = (cp param = None)"
proof (induction ps arbitrary: cp)
  case Nil
  then show ?case by simp
next
  case (Cons p ps)
  show ?case
  proof (cases "cp p")
    case None
    with Cons show ?thesis by simp
  next
    case (Some v)
    with Cons.prems obtain plain where
      r: "reveal_secrets ps (cp(p \<mapsto> plain)) = Inr cp'"
      by (auto split: sum.splits)
    from Cons.IH [OF r] Some show ?thesis by (cases "param = p") auto
  qed
qed

lemma reveal_secrets_other:
  "reveal_secrets ps cp = Inr cp' \<Longrightarrow> param \<notin> set ps \<Longrightarrow> cp' param = cp param"
  by (induction ps arbitrary: cp) (auto split: option.splits sum.splits)

lemma substitute_okta_other:
  "substitute_okta cp = Inr cp' \<Longrightarrow> param \<noteq> ''authenticator'' \<Longrightarrow> param \<noteq> ''okta_endpoint''
     \<Longrightarrow> cp' param = cp param"
  by (auto simp: substitute_okta_def split: if_splits option.splits)

lemma filter_unset_None: "(filter_unset cp param = None) = (\<not> populated cp param)"
  by (auto simp: filter_unset_def populated_def split: option.splits pval.splits)

lemma merged_params_secret:
  "param \<in> set secret_fields \<Longrightarrow> merged_params self param = dict (credentials self) param"
  by (auto simp: merged_params_def base_params_def secret_fields_def map_add_def split: option.splits)

lemma merged_params_unset:
  "dict (credentials self) param = Some v \<Longrightarrow> merged_params self param = Some v"
  by (simp add: merged_params_def map_add_def)

lemma get_connect_params_stages:
  assumes "get_connect_params self = Inr cp"
  obtains cp1 cp2 where
    "reveal_secrets secret_fields (filter_unset (merged_params self)) = Inr cp1"
    "substitute_okta cp1 = Inr cp2"
    "apply_private_key (credentials self) cp2 = Inr cp"
  using assms by (auto simp: get_connect_params_def split: sum.splits)

text \<open>
  C5. Key supersedes password: whenever \<^verbatim>\<open>resolve_private_key\<close> yields a key, the
  returned parameters have no password entry (and carry the resolved key).
\<close>

theorem private_key_supersedes_password:
  assumes "resolve_private_key (credentials self) = Inr (Some key)"
    and "get_connect_params self = Inr cp"
  shows "cp ''password'' = None \<and> cp ''private_key'' = Some (PBytes key)"
proof -
  from assms(2) obtain cp2 where
    "apply_private_key (credentials self) cp2 = Inr cp"
    by (auto elim: get_connect_params_stages)
  with assms(1) show ?thesis by (auto simp: apply_private_key_def)
qed

lemmas connector_defs =
  example_connector_def example_credentials_def key_connector_def get_connect_params_def
  merged_params_def base_params_def filter_unset_def secret_fields_def substitute_okta_def
  apply_private_key_def populated_def

lemma example_returns: "\<exists>cp. get_connect_params example_connector = Inr cp"
  by (simp add: connector_defs)

lemma key_returns: "\<exists>cp. get_connect_params key_connector = Inr cp"
  by (simp add: connector_defs)

theorem private_key_supersedes_password_witness:
  "\<exists>cp. get_connect_params key_connector = Inr cp \<and> cp ''password'' = None
      \<and> cp ''private_key'' = Some (PBytes ''DER'')"
proof -
  obtain cp where r: "get_connect_params key_connector = Inr cp"
    using key_returns by blast
  have k: "resolve_private_key (credentials key_connector) = Inr (Some ''DER'')"
    by (simp add: connector_defs)
  from private_key_supersedes_password [OF k r] r show ?thesis by (intro exI [of _ cp]) simp
qed

lemma populated_merged:
  "param \<in> set secret_fields \<Longrightarrow>
     populated (merged_params self) param = populated (dict (credentials self)) param"
  by (simp add: populated_def merged_params_secret)

text \<open>
  C4. Auth-mode exclusivity: when exactly one of the fields password, private_key and
  token of the credentials is populated, the parameters that \<^verbatim>\<open>_get_connect_params\<close>
  returns hold that secret field and neither of the other two. The key resolver is
  outside \<^verbatim>\<open>database.py\<close>; it is taken to find a key only in credentials whose
  private_key field is populated.
\<close>

theorem auth_mode_exclusivity:
  assumes field: "field \<in> set secret_fields"
    and one: "populated (dict (credentials self)) field"
    and others: "\<forall>other \<in> set secret_fields. other \<noteq> field \<longrightarrow> \<not> populated (dict (credentials self)) other"
    and resolver: "\<forall>key. resolve_private_key (credentials self) = Inr (Some key)
                      \<longrightarrow> populated (dict (credentials self)) ''private_key''"
    and returns: "get_connect_params self = Inr cp"
  shows "\<forall>param \<in> set secret_fields. (cp param \<noteq> None) = (param = field)"
proof
  fix param assume p: "param \<in> set secret_fields"
  from returns obtain cp1 cp2 where
    s1: "reveal_secrets secret_fields (filter_unset (merged_params self)) = Inr cp1" and
    s2: "substitute_okta cp1 = Inr cp2" and
    s3: "apply_private_key (credentials self) cp2 = Inr cp"
    by (rule get_connect_params_stages)
  have pop: "(cp2 q \<noteq> None) = populated (dict (credentials self)) q" if "q \<in> set secret_fields" for q
  proof -
    from that have "q \<noteq> ''authenticator''" "q \<noteq> ''okta_endpoint''"
      by (auto simp: secret_fields_def)
    with s2 have "cp2 q = cp1 q" by (rule substitute_okta_other)
    moreover from s1 have "(cp1 q = None) = (filter_unset (merged_params self) q = None)"
      by (rule reveal_secrets_dom)
    ultimately show ?thesis
      using that by (simp add: filter_unset_None populated_merged)
  qed
  have pk: "''private_key'' \<in> set secret_fields" and pw: "''password'' \<in> set secret_fields"
    by (simp_all add: secret_fields_def)
  have same: "populated (dict (credentials self)) param = (param = field)"
    using p one others by blast
  show "(cp param \<noteq> None) = (param = field)"
  proof (cases "resolve_private_key (credentials self)")
    case (Inl e)
    with s3 show ?thesis by (simp add: apply_private_key_def)
  next
    case (Inr found)
    show ?thesis
    proof (cases found)
      case None
      with Inr s3 have "cp = cp2" by (simp add: apply_private_key_def)
      with pop [OF p] same show ?thesis by simp
    next
      case (Some key)
      with Inr resolver have "populated (dict (credentials self)) ''private_key''" by blast
      with bspec [OF others pk] have f: "field = ''private_key''" by simp
      from Some Inr s3 have cp: "cp = (cp2(''private_key'' \<mapsto> PBytes key))(''password'' := None)"
        by (simp add: apply_private_key_def)
      have "''password'' \<noteq> field" unfolding f by simp
      with bspec [OF others pw] have "\<not> populated (dict (credentials self)) ''password''" by simp
      with pop [OF pw] have nopw: "cp2 ''password'' = None" by simp
      show ?thesis
      proof (cases "param = ''private_key''")
        case True
        then show ?thesis unfolding cp f by simp
      next
        case False
        then have "cp param = cp2 param"
          unfolding cp using nopw by (cases "param = ''password''") simp_all
        with pop [OF p] same show ?thesis by simp
      qed
    qed
  qed
qed

theorem auth_mode_exclusivity_witness:
  "populated (dict (credentials example_connector)) ''password''
   \<and> \<not> populated (dict (credentials example_connector)) ''private_key''
   \<and> \<not> populated (dict (credentials example_connector)) ''token''
   \<and> (\<exists>cp. get_connect_params example_connector = Inr cp
          \<and> cp ''password'' \<noteq> None \<and> cp ''private_key'' = None \<and> cp ''token'' = None)"
proof -
  obtain cp where r: "get_connect_params example_connector = Inr cp"
    using example_returns by blast
  have a: "''password'' \<in> set secret_fields" by (simp add: secret_fields_def)
  have b: "populated (dict (credentials example_connector)) ''password''"
    by (simp add: connector_defs)
  have c: "\<forall>other \<in> set secret_fields. other \<noteq> ''password'' \<longrightarrow>
          \<not> populated (dict (credentials example_connector)) other"
    by (simp add: connector_defs)
  have d: "\<forall>key. resolve_private_key (credentials example_connector) = Inr (Some key)
                      \<longrightarrow> populated (dict (credentials example_connector)) ''private_key''"
    by (simp add: connector_defs)
  have pk: "''private_key'' \<in> set secret_fields" and tk: "''token'' \<in> set secret_fields"
    by (simp_all add: secret_fields_def)
  note only = auth_mode_exclusivity [OF a b c d r]
  from bspec [OF only a] have 1: "cp ''password'' \<noteq> None" by simp
  from bspec [OF only pk] have 2: "cp ''private_key'' = None" by simp
  from bspec [OF only tk] have 3: "cp ''token'' = None" by simp
  from r 1 2 3
  have e: "\<exists>cp. get_connect_params example_connector = Inr cp
          \<and> cp ''password'' \<noteq> None \<and> cp ''private_key'' = None \<and> cp ''token'' = None"
    by (intro exI [of _ cp] conjI)
  from bspec [OF c pk] have 4: "\<not> populated (dict (credentials example_connector)) ''private_key''"
    by simp
  from bspec [OF c tk] have 5: "\<not> populated (dict (credentials example_connector)) ''token''"
    by simp
  from b 4 5 e show ?thesis by (intro conjI)
qed

text \<open>
  C6. No null leakage: a field that the credentials hold as \<^verbatim>\<open>None\<close> is not a key
  of the returned parameters. The key resolver is again taken to find a key only when
  the private_key field is populated.
\<close>

theorem no_unset_field_in_params:
  assumes unset: "dict (credentials self) param = Some PNone"
    and resolver: "\<forall>key. resolve_private_key (credentials self) = Inr (Some key)
                      \<longrightarrow> populated (dict (credentials self)) ''private_key''"
    and returns: "get_connect_params self = Inr cp"
  shows "cp param = None"
proof -
  from returns obtain cp1 cp2 where
    s1: "reveal_secrets secret_fields (filter_unset (merged_params self)) = Inr cp1" and
    s2: "substitute_okta cp1 = Inr cp2" and
    s3: "apply_private_key (credentials self) cp2 = Inr cp"
    by (rule get_connect_params_stages)
  from unset have "filter_unset (merged_params self) param = None"
    by (simp add: filter_unset_def merged_params_unset)
  with reveal_secrets_dom [OF s1, of param] have c1: "cp1 param = None" by simp
  have c2: "cp2 param = None"
    using s2 c1 by (auto simp: substitute_okta_def split: if_splits option.splits)
  from unset have np: "\<not> populated (dict (credentials self)) param"
    by (simp add: populated_def)
  show ?thesis
  proof (cases "resolve_private_key (credentials self)")
    case (Inl e)
    with s3 show ?thesis by (simp add: apply_private_key_def)
  next
    case (Inr found)
    show ?thesis
    proof (cases found)
      case None
      with Inr s3 c2 show ?thesis by (simp add: apply_private_key_def)
    next
      case (Some key)
      with Inr resolver np have "param \<noteq> ''private_key''" by blast
      with Some Inr s3 c2 show ?thesis by (auto simp: apply_private_key_def)
    qed
  qed
qed

theorem no_unset_field_in_params_witness:
  "dict (credentials example_connector) ''role'' = Some PNone
   \<and> (\<exists>cp. get_connect_params example_connector = Inr cp \<and> cp ''role'' = None)"
proof -
  obtain cp where r: "get_connect_params example_connector = Inr cp"
    using example_returns by blast
  have a: "dict (credentials example_connector) ''role'' = Some PNone"
    by (simp add: connector_defs)
  have d: "\<forall>key. resolve_private_key (credentials example_connector) = Inr (Some key)
                      \<longrightarrow> populated (dict (credentials example_connector)) ''private_key''"
    by (simp add: connector_defs)
  from no_unset_field_in_params [OF a d r] r
  have "\<exists>cp. get_connect_params example_connector = Inr cp \<and> cp ''role'' = None"
    by (intro exI [of _ cp] conjI)
  with a show ?thesis by (intro conjI)
qed

text \<open>
  C7. When the authenticator field is the sentinel \<^verbatim>\<open>"okta_endpoint"\<close>, the returned
  parameters carry the value of the okta_endpoint field as the authenticator, and the
  okta_endpoint key is gone.
\<close>

theorem okta_endpoint_substituted:
  assumes sentinel: "dict (credentials self) ''authenticator'' = Some (PStr ''okta_endpoint'')"
    and returns: "get_connect_params self = Inr cp"
  shows "cp ''authenticator'' = dict (credentials self) ''okta_endpoint''
         \<and> populated cp ''authenticator''
         \<and> cp ''okta_endpoint'' = None"
proof -
  from returns obtain cp1 cp2 where
    s1: "reveal_secrets secret_fields (filter_unset (merged_params self)) = Inr cp1" and
    s2: "substitute_okta cp1 = Inr cp2" and
    s3: "apply_private_key (credentials self) cp2 = Inr cp"
    by (rule get_connect_params_stages)
  have notsecret: "''authenticator'' \<notin> set secret_fields" "''okta_endpoint'' \<notin> set secret_fields"
    by (simp_all add: secret_fields_def)
  have m: "merged_params self ''authenticator'' = Some (PStr ''okta_endpoint'')"
    using sentinel by (rule merged_params_unset)
  have a1: "cp1 ''authenticator'' = Some (PStr ''okta_endpoint'')"
    using reveal_secrets_other [OF s1 notsecret(1)] m by (simp add: filter_unset_def)
  have o1: "cp1 ''okta_endpoint'' = filter_unset (dict (credentials self)) ''okta_endpoint''"
    using reveal_secrets_other [OF s1 notsecret(2)]
    by (simp add: filter_unset_def merged_params_def base_params_def map_add_def split: option.splits)
  from s2 a1 obtain endpoint where
    e: "cp1 ''okta_endpoint'' = Some endpoint" and
    c2: "cp2 = (cp1(''okta_endpoint'' := None))(''authenticator'' \<mapsto> endpoint)"
    by (auto simp: substitute_okta_def split: option.splits)
  from e o1 have d: "dict (credentials self) ''okta_endpoint'' = Some endpoint" and n: "endpoint \<noteq> PNone"
    by (auto simp: filter_unset_def split: option.splits pval.splits)
  from s3 c2 have "cp ''authenticator'' = Some endpoint" "cp ''okta_endpoint'' = None"
    by (auto simp: apply_private_key_def split: sum.splits option.splits)
  with d n show ?thesis by (cases endpoint) (simp_all add: populated_def)
qed

theorem okta_endpoint_substituted_witness:
  "dict (credentials example_connector) ''authenticator'' = Some (PStr ''okta_endpoint'')
   \<and> (\<exists>cp. get_connect_params example_connector = Inr cp
         \<and> cp ''authenticator'' = Some (PStr ''https://acct.okta.com'')
         \<and> cp ''okta_endpoint'' = None)"
proof -
  obtain cp where r: "get_connect_params example_connector = Inr cp"
    using example_returns by blast
  have a: "dict (credentials example_connector) ''authenticator'' = Some (PStr ''okta_endpoint'')"
    by (simp add: connector_defs)
  have b: "dict (credentials example_connector) ''okta_endpoint'' = Some (PStr ''https://acct.okta.com'')"
    by (simp add: connector_defs)
  from okta_endpoint_substituted [OF a r] b r
  have "\<exists>cp. get_connect_params example_connector = Inr cp
         \<and> cp ''authenticator'' = Some (PStr ''https://acct.okta.com'')
         \<and> cp ''okta_endpoint'' = None"
    by (intro exI [of _ cp]) simp
  with a show ?thesis by (intro conjI)
qed


section \<open>Properties of the asynchronous executor\<close>

lemma running_reports_observed:
  "running_reports tr = length (filter is_still_running (observed tr))"
  unfolding running_reports_def by (induction tr rule: observed.induct) simp_all

lemma suspensions_append: "suspensions (xs @ ys) = suspensions xs + suspensions ys"
  by (simp add: suspensions_def)

lemma running_reports_append:
  "running_reports (xs @ ys) = running_reports xs + running_reports ys"
  by (simp add: running_reports_def)

lemma before_fetch_append:
  "filter is_fetch xs = [] \<Longrightarrow> before_fetch (xs @ ys) = xs @ before_fetch ys"
  by (simp add: before_fetch_def filter_empty_conv takeWhile_append2)

lemma before_fetch_none: "filter is_fetch xs = [] \<Longrightarrow> before_fetch xs = xs"
  using before_fetch_append [of xs "[]"] by (simp add: before_fetch_def)

lemma submitted_append: "submitted (xs @ ys) = submitted xs @ submitted ys"
  by (induction xs rule: submitted.induct) simp_all

lemma observed_append: "observed (xs @ ys) = observed xs @ observed ys"
  by (induction xs rule: observed.induct) simp_all

lemma poll_trace:
  "poll iv qid c i ss = Some (tr, r) \<Longrightarrow>
     suspensions tr = running_reports tr \<and> filter is_fetch tr = [] \<and> submitted tr = []"
proof (induction ss arbitrary: i tr r)
  case Nil
  then show ?case by simp
next
  case (Cons s later)
  show ?case
  proof (cases s)
    case Running
    show ?thesis
    proof (cases "c = Some i")
      case True
      with Running Cons.prems show ?thesis
        by (auto simp: suspensions_def running_reports_def)
    next
      case False
      with Running Cons.prems obtain tr' where
        rec: "poll iv qid c (Suc i) later = Some (tr', r)" and
        tr: "tr = GetQueryStatus qid s # Sleep iv # tr'"
        by (auto split: option.splits)
      from Cons.IH [OF rec] tr Running show ?thesis
        by (simp add: suspensions_def running_reports_def)
    qed
  next
    case Succeeded
    with Cons.prems show ?thesis by (auto simp: suspensions_def running_reports_def)
  next
    case FailedWithError
    with Cons.prems show ?thesis by (auto simp: suspensions_def running_reports_def)
  qed
qed

lemma submit_and_poll_trace:
  assumes "submit_and_poll run q p iv = Some (tr, r)"
  shows "suspensions (before_fetch tr) = running_reports (before_fetch tr)
         \<and> suspensions tr = running_reports tr
         \<and> submitted tr = [q]
         \<and> (\<forall>e. r = Inl e \<longrightarrow> filter is_fetch tr = [])
         \<and> (\<forall>u. r = Inr u \<longrightarrow> (\<exists>pre qid. tr = pre @ [GetResultsFromSfqid qid] \<and> filter is_fetch pre = []))"
proof (cases "execute_async run")
  case (Inl e)
  with assms show ?thesis
    by (auto simp: submit_and_poll_def suspensions_def running_reports_def before_fetch_def)
next
  case (Inr qid)
  with assms obtain ptr pr where
    p: "poll iv qid (cancelled_during run) 0 (statuses run) = Some (ptr, pr)"
    by (auto simp: submit_and_poll_def split: option.splits)
  note pt = poll_trace [OF p]
  show ?thesis
  proof (cases pr)
    case (Inl e)
    with assms Inr p have tr: "tr = ExecuteAsync q p # ptr" and r: "r = Inl e"
      by (auto simp: submit_and_poll_def)
    have nf: "filter is_fetch tr = []" using pt tr by simp
    from pt tr r nf show ?thesis
      by (simp add: before_fetch_none) (simp add: suspensions_def running_reports_def)
  next
    case (Inr u)
    with assms \<open>execute_async run = Inr qid\<close> p
    have tr: "tr = (ExecuteAsync q p # ptr) @ [GetResultsFromSfqid qid]" and r: "r = Inr ()"
      by (auto simp: submit_and_poll_def)
    have nf: "filter is_fetch (ExecuteAsync q p # ptr) = []" using pt by simp
    have bf: "before_fetch tr = ExecuteAsync q p # ptr"
      unfolding tr before_fetch_append [OF nf] by (simp add: before_fetch_def)
    have sub: "submitted tr = [q]"
      unfolding tr using pt by (simp add: submitted_append)
    have c: "suspensions (ExecuteAsync q p # ptr) = running_reports (ExecuteAsync q p # ptr)"
      using pt by (simp add: suspensions_def running_reports_def)
    have d: "suspensions tr = running_reports tr"
      unfolding tr suspensions_append running_reports_append using c
      by (simp add: suspensions_def running_reports_def)
    from bf c d sub r tr nf show ?thesis by auto
  qed
qed

lemma async_execute_operation_cases:
  assumes "async_execute_operation self drv q p ct iv body = Some (tr, res)"
  obtains
    (no_session) e where "get_connection self drv True = Inl e" "tr = []" "res = Inl e"
  | (raised) sp e where
      "get_connection self drv True = Inr ()"
      "submit_and_poll (server drv 0 q p) q p iv = Some (sp, Inl e)"
      "tr = Connect # OpenCursor ct # sp @ [CloseCursor, CloseConnection]" "res = Inl e"
  | (loaded) sp where
      "get_connection self drv True = Inr ()"
      "submit_and_poll (server drv 0 q p) q p iv = Some (sp, Inr ())"
      "tr = Connect # OpenCursor ct # sp @ fst (body (server drv 0 q p)) @ [CloseCursor, CloseConnection]"
      "res = snd (body (server drv 0 q p))"
proof (cases "get_connection self drv True")
  case (Inl e)
  with assms have "tr = []" "res = Inl e"
    by (auto simp: async_execute_operation_def with_connection_def)
  with Inl show ?thesis by (rule no_session)
next
  case (Inr u)
  then have conn: "get_connection self drv True = Inr ()" by simp
  show ?thesis
  proof (cases "submit_and_poll (server drv 0 q p) q p iv")
    case None
    with assms conn show ?thesis
      by (simp add: async_execute_operation_def with_connection_def with_cursor_def)
  next
    case (Some out)
    obtain sp r where out: "out = (sp, r)" by (cases out)
    show ?thesis
    proof (cases r)
      case (Inl e)
      with assms conn Some out
      have "tr = Connect # OpenCursor ct # sp @ [CloseCursor, CloseConnection]" "res = Inl e"
        by (auto simp: async_execute_operation_def with_connection_def with_cursor_def)
      with conn Some out Inl show ?thesis by (auto intro: raised)
    next
      case (Inr u)
      with assms conn Some out
      have "tr = Connect # OpenCursor ct # sp @ fst (body (server drv 0 q p))
                   @ [CloseCursor, CloseConnection]"
           "res = snd (body (server drv 0 q p))"
        by (auto simp: async_execute_operation_def with_connection_def with_cursor_def
                 split: prod.splits)
      with conn Some out Inr show ?thesis by (auto intro: loaded)
    qed
  qed
qed

lemma snowflake_query_fetch_all:
  "snowflake_query q c drv p ct iv = fetch_all c drv q p ct iv"
  by (simp add: snowflake_query_def fetch_all_def async_execute_operation_def Let_def
           split: option.split prod.split sum.split)

lemma suspensions_before_fetch: "suspensions (before_fetch tr) \<le> suspensions tr"
proof -
  have "tr = before_fetch tr @ dropWhile (\<lambda>e. \<not> is_fetch e) tr"
    by (simp add: before_fetch_def)
  then have "suspensions tr
      = suspensions (before_fetch tr) + suspensions (dropWhile (\<lambda>e. \<not> is_fetch e) tr)"
    by (metis suspensions_append)
  then show ?thesis by simp
qed

lemma sleeps_match_async:
  assumes run: "async_execute_operation self drv q p ct iv body = Some (tr, res)"
    and quiet: "is_fetch ev" "fst (body (server drv 0 q p)) = [ev]"
  shows "suspensions tr = running_reports tr \<and> suspensions (before_fetch tr) = suspensions tr"
  using run
proof (cases rule: async_execute_operation_cases)
  case (no_session e)
  then show ?thesis by (simp add: suspensions_def running_reports_def before_fetch_def)
next
  case (raised sp e)
  note sp = submit_and_poll_trace [OF raised(2)]
  from sp have nf: "filter is_fetch tr = []" unfolding raised(3) by simp
  have "suspensions tr = suspensions sp"
    unfolding raised(3) by (simp add: suspensions_def)
  moreover have "running_reports tr = running_reports sp"
    unfolding raised(3) by (simp add: running_reports_def)
  ultimately show ?thesis using sp by (simp add: before_fetch_none [OF nf])
next
  case (loaded sp)
  note sp = submit_and_poll_trace [OF loaded(2)]
  from sp obtain pre qid where
    pre: "sp = pre @ [GetResultsFromSfqid qid]" "filter is_fetch pre = []"
    by auto
  have ev: "\<not> is_sleep ev" "\<not> reports_running ev"
    using quiet(1) by (cases ev; simp)+
  have tr: "tr = (Connect # OpenCursor ct # pre)
                   @ GetResultsFromSfqid qid # ev # [CloseCursor, CloseConnection]"
    unfolding loaded(3) pre(1) quiet(2) by simp
  have nf: "filter is_fetch (Connect # OpenCursor ct # pre) = []" using pre(2) by simp
  have bf: "before_fetch tr = Connect # OpenCursor ct # pre"
    unfolding tr before_fetch_append [OF nf] by (simp add: before_fetch_def)
  have s1: "suspensions tr = suspensions sp"
    unfolding tr pre(1) using ev by (simp add: suspensions_def)
  have s2: "running_reports tr = running_reports sp"
    unfolding tr pre(1) using ev by (simp add: running_reports_def)
  have s3: "suspensions (before_fetch tr) = suspensions sp"
    unfolding bf pre(1) by (simp add: suspensions_def)
  from s1 s2 s3 sp show ?thesis by simp
qed

lemma ended_runs_sleeps_match:
  assumes run:
    "snowflake_query operation self drv parameters ct interval_seconds = Some (tr, all_rows)
     \<or> fetch_all self drv operation parameters ct interval_seconds = Some (tr, all_rows)
     \<or> fetch_many self drv operation parameters limit_arg ct interval_seconds = Some (tr, some_rows)
     \<or> fetch_one self drv operation parameters ct interval_seconds = Some (tr, one_row)"
  shows "suspensions tr = running_reports tr
         \<and> suspensions (before_fetch tr) = suspensions tr
         \<and> (observed tr = [Running, Running, Succeeded] \<longrightarrow> suspensions (before_fetch tr) = 2)"
proof -
  have m: "suspensions tr = running_reports tr \<and> suspensions (before_fetch tr) = suspensions tr"
    using run unfolding snowflake_query_fetch_all fetch_all_def fetch_many_def fetch_one_def Let_def
    by (elim disjE) (erule sleeps_match_async [where ev = FetchAll] sleeps_match_async [where ev = "FetchMany (default_arg (Some 5) limit_arg)"] sleeps_match_async [where ev = FetchOne], simp, simp)+
  moreover have "running_reports tr = 2" if "observed tr = [Running, Running, Succeeded]"
    using that by (simp add: running_reports_observed)
  ultimately show ?thesis by simp
qed

lemmas driver_defs =
  example_driver_def cancelling_driver_def failing_driver_def example_run_def

lemma example_connects:
  "connect drv = (\<lambda>_. None) \<Longrightarrow> get_connection example_connector drv True = Inr ()"
  by (simp add: get_connection_def connector_defs)

lemma poll_running_then:
  assumes "s \<noteq> Running" and "\<forall>j. c = Some j \<longrightarrow> i + k \<le> j"
  shows "poll iv qid c i (replicate k Running @ s # rest)
           = Some (concat (replicate k [GetQueryStatus qid Running, Sleep iv])
                     @ [GetQueryStatus qid s],
                   case get_query_status_throw_if_error s of
                     Inl e \<Rightarrow> Inl e | Inr _ \<Rightarrow> Inr ())"
  using assms
proof (induction k arbitrary: i)
  case 0
  then show ?case by (cases s) simp_all
next
  case (Suc k)
  from Suc.prems have now: "c \<noteq> Some i" by auto
  from Suc.prems have later: "\<forall>j. c = Some j \<longrightarrow> Suc i + k \<le> j" by simp
  from Suc.IH [OF Suc.prems(1) later] now show ?case by simp
qed

lemma sleeps_of_polled:
  "filter is_sleep (concat (replicate k [GetQueryStatus qid Running, Sleep iv]))
     = replicate k (Sleep iv)"
  by (induction k) simp_all

lemma no_fetch_in_polled:
  "filter is_fetch (concat (replicate k [GetQueryStatus qid Running, Sleep iv])) = []"
  by (induction k) simp_all

lemma submit_and_poll_running_then:
  assumes sub: "execute_async run = Inr qid"
    and st: "statuses run = replicate k Running @ s # rest"
    and s: "s \<noteq> Running"
    and nc: "\<forall>j. cancelled_during run = Some j \<longrightarrow> k \<le> j"
  shows "submit_and_poll run q p iv
           = Some (ExecuteAsync q p
                     # concat (replicate k [GetQueryStatus qid Running, Sleep iv])
                     @ GetQueryStatus qid s
                     # (case s of Succeeded \<Rightarrow> [GetResultsFromSfqid qid] | _ \<Rightarrow> []),
                   case s of Succeeded \<Rightarrow> Inr () | _ \<Rightarrow> Inl StatusError)"
proof -
  from nc have "\<forall>j. cancelled_during run = Some j \<longrightarrow> 0 + k \<le> j" by simp
  from poll_running_then [OF s this, of iv qid rest]
  have "poll iv qid (cancelled_during run) 0 (statuses run)
          = Some (concat (replicate k [GetQueryStatus qid Running, Sleep iv])
                    @ [GetQueryStatus qid s],
                  case get_query_status_throw_if_error s of
                    Inl e \<Rightarrow> Inl e | Inr _ \<Rightarrow> Inr ())"
    unfolding st .
  with sub s show ?thesis
    by (cases s) (simp_all add: submit_and_poll_def)
qed

text \<open>
  C3. The poll loop of \<^verbatim>\<open>_async_execute_operation\<close> (whatever its caller does with
  the cursor) and of \<^verbatim>\<open>snowflake_query\<close>. When the server reports running \<open>k\<close>
  times and then success, the call sleeps exactly \<open>k\<close> times, each time for the poll
  interval, all of it before the results are loaded, and then returns; for running,
  running, succeeded that is 2. When the server reports running \<open>k\<close> times and then
  failure, the call sleeps \<open>k\<close> times and raises. And in every run that ends at
  all, the number of sleeps equals the number of status checks that reported running.
\<close>

theorem suspensions_match_running_reports:
  "(\<forall>tr all_rows some_rows one_row.
      snowflake_query operation self drv parameters ct interval_seconds = Some (tr, all_rows)
      \<or> fetch_all self drv operation parameters ct interval_seconds = Some (tr, all_rows)
      \<or> fetch_many self drv operation parameters limit_arg ct interval_seconds = Some (tr, some_rows)
      \<or> fetch_one self drv operation parameters ct interval_seconds = Some (tr, one_row)
      \<longrightarrow> suspensions tr = running_reports tr
          \<and> suspensions (before_fetch tr) = suspensions tr
          \<and> (observed tr = [Running, Running, Succeeded] \<longrightarrow> suspensions (before_fetch tr) = 2))
   \<and> (get_connection self drv True = Inr ()
        \<and> execute_async (server drv 0 operation parameters) = Inr query_id
        \<and> statuses (server drv 0 operation parameters) = replicate k Running @ Succeeded # rest
        \<and> (\<forall>j. cancelled_during (server drv 0 operation parameters) = Some j \<longrightarrow> k \<le> j)
      \<longrightarrow> (\<exists>polled.
            polled = Connect # OpenCursor ct # ExecuteAsync operation parameters
                       # concat (replicate k
                           [GetQueryStatus query_id Running, Sleep interval_seconds])
                       @ [GetQueryStatus query_id Succeeded]
            \<and> filter is_sleep polled = replicate k (Sleep interval_seconds)
            \<and> filter is_fetch polled = []
            \<and> async_execute_operation self drv operation parameters ct interval_seconds body
                = Some (polled @ GetResultsFromSfqid query_id
                          # fst (body (server drv 0 operation parameters))
                          @ [CloseCursor, CloseConnection],
                        snd (body (server drv 0 operation parameters)))
            \<and> snowflake_query operation self drv parameters ct interval_seconds
                = Some (polled @ [GetResultsFromSfqid query_id, FetchAll,
                                  CloseCursor, CloseConnection],
                        Inr (rows (server drv 0 operation parameters)))))
   \<and> (get_connection self drv True = Inr ()
        \<and> execute_async (server drv 0 operation parameters) = Inr query_id
        \<and> statuses (server drv 0 operation parameters)
            = replicate k Running @ FailedWithError # rest
        \<and> (\<forall>j. cancelled_during (server drv 0 operation parameters) = Some j \<longrightarrow> k \<le> j)
      \<longrightarrow> (\<exists>polled.
            polled = Connect # OpenCursor ct # ExecuteAsync operation parameters
                       # concat (replicate k
                           [GetQueryStatus query_id Running, Sleep interval_seconds])
                       @ [GetQueryStatus query_id FailedWithError]
            \<and> filter is_sleep polled = replicate k (Sleep interval_seconds)
            \<and> async_execute_operation self drv operation parameters ct interval_seconds body
                = Some (polled @ [CloseCursor, CloseConnection], Inl StatusError)
            \<and> snowflake_query operation self drv parameters ct interval_seconds
                = Some (polled @ [CloseCursor, CloseConnection], Inl StatusError)))"
proof (intro conjI)
  show "\<forall>tr all_rows some_rows one_row.
      snowflake_query operation self drv parameters ct interval_seconds = Some (tr, all_rows)
      \<or> fetch_all self drv operation parameters ct interval_seconds = Some (tr, all_rows)
      \<or> fetch_many self drv operation parameters limit_arg ct interval_seconds = Some (tr, some_rows)
      \<or> fetch_one self drv operation parameters ct interval_seconds = Some (tr, one_row)
      \<longrightarrow> suspensions tr = running_reports tr
          \<and> suspensions (before_fetch tr) = suspensions tr
          \<and> (observed tr = [Running, Running, Succeeded] \<longrightarrow> suspensions (before_fetch tr) = 2)"
    by (intro allI impI) (rule ended_runs_sleeps_match)
next
  let ?run = "server drv 0 operation parameters"
  let ?loop = "concat (replicate k [GetQueryStatus query_id Running, Sleep interval_seconds])"
  show "get_connection self drv True = Inr ()
        \<and> execute_async ?run = Inr query_id
        \<and> statuses ?run = replicate k Running @ Succeeded # rest
        \<and> (\<forall>j. cancelled_during ?run = Some j \<longrightarrow> k \<le> j)
      \<longrightarrow> (\<exists>polled.
            polled = Connect # OpenCursor ct # ExecuteAsync operation parameters
                       # ?loop @ [GetQueryStatus query_id Succeeded]
            \<and> filter is_sleep polled = replicate k (Sleep interval_seconds)
            \<and> filter is_fetch polled = []
            \<and> async_execute_operation self drv operation parameters ct interval_seconds body
                = Some (polled @ GetResultsFromSfqid query_id # fst (body ?run)
                          @ [CloseCursor, CloseConnection],
                        snd (body ?run))
            \<and> snowflake_query operation self drv parameters ct interval_seconds
                = Some (polled @ [GetResultsFromSfqid query_id, FetchAll,
                                  CloseCursor, CloseConnection],
                        Inr (rows ?run)))"
  proof
    assume a: "get_connection self drv True = Inr ()
        \<and> execute_async ?run = Inr query_id
        \<and> statuses ?run = replicate k Running @ Succeeded # rest
        \<and> (\<forall>j. cancelled_during ?run = Some j \<longrightarrow> k \<le> j)"
    then have conn: "get_connection self drv True = Inr ()"
      and sub: "execute_async ?run = Inr query_id"
      and st: "statuses ?run = replicate k Running @ Succeeded # rest"
      and nc: "\<forall>j. cancelled_during ?run = Some j \<longrightarrow> k \<le> j"
      by simp_all
    have sp: "submit_and_poll ?run operation parameters interval_seconds
           = Some (ExecuteAsync operation parameters # ?loop
                     @ [GetQueryStatus query_id Succeeded, GetResultsFromSfqid query_id],
                   Inr ())"
      using submit_and_poll_running_then [OF sub st _ nc, of operation parameters interval_seconds]
      by simp
    have 1: "async_execute_operation self drv operation parameters ct interval_seconds body
                = Some ((Connect # OpenCursor ct # ExecuteAsync operation parameters
                           # ?loop @ [GetQueryStatus query_id Succeeded])
                          @ GetResultsFromSfqid query_id # fst (body ?run)
                          @ [CloseCursor, CloseConnection],
                        snd (body ?run))"
      by (simp add: async_execute_operation_def with_connection_def with_cursor_def conn sp
            split: prod.split)
    have 2: "snowflake_query operation self drv parameters ct interval_seconds
                = Some ((Connect # OpenCursor ct # ExecuteAsync operation parameters
                           # ?loop @ [GetQueryStatus query_id Succeeded])
                          @ [GetResultsFromSfqid query_id, FetchAll,
                                  CloseCursor, CloseConnection],
                        Inr (rows ?run))"
      by (simp add: snowflake_query_def with_connection_def with_cursor_def conn sp)
    have 3: "filter is_sleep (Connect # OpenCursor ct # ExecuteAsync operation parameters
                           # ?loop @ [GetQueryStatus query_id Succeeded])
               = replicate k (Sleep interval_seconds)"
      by (simp add: sleeps_of_polled)
    have 4: "filter is_fetch (Connect # OpenCursor ct # ExecuteAsync operation parameters
                           # ?loop @ [GetQueryStatus query_id Succeeded]) = []"
      by (simp add: no_fetch_in_polled)
    from 1 2 3 4 show "\<exists>polled.
            polled = Connect # OpenCursor ct # ExecuteAsync operation parameters
                       # ?loop @ [GetQueryStatus query_id Succeeded]
            \<and> filter is_sleep polled = replicate k (Sleep interval_seconds)
            \<and> filter is_fetch polled = []
            \<and> async_execute_operation self drv operation parameters ct interval_seconds body
                = Some (polled @ GetResultsFromSfqid query_id # fst (body ?run)
                          @ [CloseCursor, CloseConnection],
                        snd (body ?run))
            \<and> snowflake_query operation self drv parameters ct interval_seconds
                = Some (polled @ [GetResultsFromSfqid query_id, FetchAll,
                                  CloseCursor, CloseConnection],
                        Inr (rows ?run))"
      by (intro exI conjI) (rule refl, assumption+)
  qed
next
  let ?run = "server drv 0 operation parameters"
  let ?loop = "concat (replicate k [GetQueryStatus query_id Running, Sleep interval_seconds])"
  show "get_connection self drv True = Inr ()
        \<and> execute_async ?run = Inr query_id
        \<and> statuses ?run = replicate k Running @ FailedWithError # rest
        \<and> (\<forall>j. cancelled_during ?run = Some j \<longrightarrow> k \<le> j)
      \<longrightarrow> (\<exists>polled.
            polled = Connect # OpenCursor ct # ExecuteAsync operation parameters
                       # ?loop @ [GetQueryStatus query_id FailedWithError]
            \<and> filter is_sleep polled = replicate k (Sleep interval_seconds)
            \<and> async_execute_operation self drv operation parameters ct interval_seconds body
                = Some (polled @ [CloseCursor, CloseConnection], Inl StatusError)
            \<and> snowflake_query operation self drv parameters ct interval_seconds
                = Some (polled @ [CloseCursor, CloseConnection], Inl StatusError))"
  proof
    assume a: "get_connection self drv True = Inr ()
        \<and> execute_async ?run = Inr query_id
        \<and> statuses ?run = replicate k Running @ FailedWithError # rest
        \<and> (\<forall>j. cancelled_during ?run = Some j \<longrightarrow> k \<le> j)"
    then have conn: "get_connection self drv True = Inr ()"
      and sub: "execute_async ?run = Inr query_id"
      and st: "statuses ?run = replicate k Running @ FailedWithError # rest"
      and nc: "\<forall>j. cancelled_during ?run = Some j \<longrightarrow> k \<le> j"
      by simp_all
    have sp: "submit_and_poll ?run operation parameters interval_seconds
           = Some (ExecuteAsync operation parameters # ?loop
                     @ [GetQueryStatus query_id FailedWithError],
                   Inl StatusError)"
      using submit_and_poll_running_then [OF sub st _ nc, of operation parameters interval_seconds]
      by simp
    have 1: "async_execute_operation self drv operation parameters ct interval_seconds body
                = Some ((Connect # OpenCursor ct # ExecuteAsync operation parameters
                           # ?loop @ [GetQueryStatus query_id FailedWithError])
                          @ [CloseCursor, CloseConnection], Inl StatusError)"
      by (simp add: async_execute_operation_def with_connection_def with_cursor_def conn sp)
    have 2: "snowflake_query operation self drv parameters ct interval_seconds
                = Some ((Connect # OpenCursor ct # ExecuteAsync operation parameters
                           # ?loop @ [GetQueryStatus query_id FailedWithError])
                          @ [CloseCursor, CloseConnection], Inl StatusError)"
      by (simp add: snowflake_query_def with_connection_def with_cursor_def conn sp)
    have 3: "filter is_sleep (Connect # OpenCursor ct # ExecuteAsync operation parameters
                           # ?loop @ [GetQueryStatus query_id FailedWithError])
               = replicate k (Sleep interval_seconds)"
      by (simp add: sleeps_of_polled)
    from 1 2 3 show "\<exists>polled.
            polled = Connect # OpenCursor ct # ExecuteAsync operation parameters
                       # ?loop @ [GetQueryStatus query_id FailedWithError]
            \<and> filter is_sleep polled = replicate k (Sleep interval_seconds)
            \<and> async_execute_operation self drv operation parameters ct interval_seconds body
                = Some (polled @ [CloseCursor, CloseConnection], Inl StatusError)
            \<and> snowflake_query operation self drv parameters ct interval_seconds
                = Some (polled @ [CloseCursor, CloseConnection], Inl StatusError)"
      by (intro exI conjI) (rule refl, assumption+)
  qed
qed

theorem suspensions_match_running_reports_witness:
  "statuses (server example_driver 0 ''SELECT 1'' NoParams) = [Running, Running, Succeeded]
   \<and> fetch_all example_connector example_driver ''SELECT 1'' NoParams SnowflakeCursor 1
       = Some ([Connect, OpenCursor SnowflakeCursor, ExecuteAsync ''SELECT 1'' NoParams,
                GetQueryStatus 100 Running, Sleep 1, GetQueryStatus 100 Running, Sleep 1,
                GetQueryStatus 100 Succeeded, GetResultsFromSfqid 100, FetchAll,
                CloseCursor, CloseConnection],
               Inr (replicate 7 [PStr ''SELECT 1'']))
   \<and> snowflake_query ''SELECT 1'' example_connector example_driver NoParams SnowflakeCursor 1
       = Some ([Connect, OpenCursor SnowflakeCursor, ExecuteAsync ''SELECT 1'' NoParams,
                GetQueryStatus 100 Running, Sleep 1, GetQueryStatus 100 Running, Sleep 1,
                GetQueryStatus 100 Succeeded, GetResultsFromSfqid 100, FetchAll,
                CloseCursor, CloseConnection],
               Inr (replicate 7 [PStr ''SELECT 1'']))
   \<and> suspensions (before_fetch
         [Connect, OpenCursor SnowflakeCursor, ExecuteAsync ''SELECT 1'' NoParams,
          GetQueryStatus 100 Running, Sleep 1, GetQueryStatus 100 Running, Sleep 1,
          GetQueryStatus 100 Succeeded, GetResultsFromSfqid 100, FetchAll,
          CloseCursor, CloseConnection]) = 2"
proof -
  let ?run = "server example_driver 0 ''SELECT 1'' NoParams"
  have conn: "get_connection example_connector example_driver True = Inr ()"
    by (rule example_connects) (simp add: driver_defs)
  have sub: "execute_async ?run = Inr 100"
    by (simp add: driver_defs)
  have st: "statuses ?run = replicate (Suc (Suc 0)) Running @ Succeeded # []"
    by (simp add: driver_defs)
  have nc: "\<forall>j. cancelled_during ?run = Some j \<longrightarrow> Suc (Suc 0) \<le> j"
    by (simp add: driver_defs)
  have rs: "rows ?run = replicate 7 [PStr ''SELECT 1'']"
    by (simp add: driver_defs)
  note total = suspensions_match_running_reports [where operation = "''SELECT 1''" and self = example_connector
      and drv = example_driver and parameters = NoParams and ct = SnowflakeCursor
      and interval_seconds = 1 and query_id = 100 and k = "Suc (Suc 0)" and rest = "[]"
      and body = "\<lambda>run. ([FetchAll], Inr (rows run))"]
  from mp [OF conjunct1 [OF conjunct2 [OF total]] conjI [OF conn conjI [OF sub conjI [OF st nc]]]]
  have a: "async_execute_operation example_connector example_driver ''SELECT 1'' NoParams
             SnowflakeCursor 1 (\<lambda>run. ([FetchAll], Inr (rows run)))
       = Some ([Connect, OpenCursor SnowflakeCursor, ExecuteAsync ''SELECT 1'' NoParams,
                GetQueryStatus 100 Running, Sleep 1, GetQueryStatus 100 Running, Sleep 1,
                GetQueryStatus 100 Succeeded, GetResultsFromSfqid 100, FetchAll,
                CloseCursor, CloseConnection],
               Inr (replicate 7 [PStr ''SELECT 1'']))"
    and q: "snowflake_query ''SELECT 1'' example_connector example_driver NoParams SnowflakeCursor 1
       = Some ([Connect, OpenCursor SnowflakeCursor, ExecuteAsync ''SELECT 1'' NoParams,
                GetQueryStatus 100 Running, Sleep 1, GetQueryStatus 100 Running, Sleep 1,
                GetQueryStatus 100 Succeeded, GetResultsFromSfqid 100, FetchAll,
                CloseCursor, CloseConnection],
               Inr (replicate 7 [PStr ''SELECT 1'']))"
    by (simp_all add: rs)
  have s: "statuses ?run = [Running, Running, Succeeded]"
    by (simp add: driver_defs)
  have c: "suspensions (before_fetch
         [Connect, OpenCursor SnowflakeCursor, ExecuteAsync ''SELECT 1'' NoParams,
          GetQueryStatus 100 Running, Sleep 1, GetQueryStatus 100 Running, Sleep 1,
          GetQueryStatus 100 Succeeded, GetResultsFromSfqid 100, FetchAll,
          CloseCursor, CloseConnection]) = 2"
    by (simp add: suspensions_def before_fetch_def)
  from s a q c show ?thesis by (simp add: fetch_all_def)
qed

lemma poll_cancelled:
  "poll iv qid (Some (i + m)) i (replicate (Suc m) Running @ rest)
     = Some (concat (replicate (Suc m) [GetQueryStatus qid Running, Sleep iv]), Inl Cancelled)"
proof (induction m arbitrary: i)
  case 0
  show ?case by simp
next
  case (Suc m)
  have later: "replicate (Suc (Suc m)) Running @ rest
                 = Running # (replicate (Suc m) Running @ rest)"
    by simp
  have slept: "concat (replicate (Suc (Suc m)) [GetQueryStatus qid Running, Sleep iv])
                 = GetQueryStatus qid Running # Sleep iv
                     # concat (replicate (Suc m) [GetQueryStatus qid Running, Sleep iv])"
    by simp
  from Suc.IH [of "Suc i"] show ?case
    unfolding later slept by (simp del: replicate.simps)
qed

text \<open>
  C8. A cancellation delivered in a sleep of the poll loop: the call raises
  \<open>Cancelled\<close>; the trace ends with that sleep followed by the closing of cursor and
  session, so no status check follows it; nothing is loaded or fetched, and the body of
  the caller's \<^verbatim>\<open>async with\<close> is never entered.
\<close>

theorem cancelled_during_sleep:
  assumes conn: "get_connection self drv True = Inr ()"
    and sub: "execute_async (server drv 0 operation parameters) = Inr query_id"
    and st: "statuses (server drv 0 operation parameters) = replicate (Suc m) Running @ rest"
    and cancel: "cancelled_during (server drv 0 operation parameters) = Some m"
  shows "\<exists>tr.
      async_execute_operation self drv operation parameters ct interval_seconds body
        = Some (tr, Inl Cancelled)
      \<and> snowflake_query operation self drv parameters ct interval_seconds
        = Some (tr, Inl Cancelled)
      \<and> tr = Connect # OpenCursor ct # ExecuteAsync operation parameters
               # concat (replicate (Suc m)
                   [GetQueryStatus query_id Running, Sleep interval_seconds])
               @ [CloseCursor, CloseConnection]
      \<and> filter is_fetch tr = []
      \<and> length (filter is_status_check tr) = Suc m"
proof -
  let ?polled = "concat (replicate (Suc m) [GetQueryStatus query_id Running, Sleep interval_seconds])"
  have p: "poll interval_seconds query_id (Some m) 0 (replicate (Suc m) Running @ rest)
             = Some (?polled, Inl Cancelled)"
    using poll_cancelled [of interval_seconds query_id 0 m rest] by simp
  have sp: "submit_and_poll (server drv 0 operation parameters) operation parameters
              interval_seconds
            = Some (ExecuteAsync operation parameters # ?polled, Inl Cancelled)"
    by (simp only: submit_and_poll_def sub st cancel p sum.case option.case prod.case)
  have a: "async_execute_operation self drv operation parameters ct interval_seconds body
        = Some (Connect # OpenCursor ct # ExecuteAsync operation parameters # ?polled
                  @ [CloseCursor, CloseConnection], Inl Cancelled)"
    by (simp add: async_execute_operation_def with_connection_def with_cursor_def conn sp
          del: replicate.simps)
  have q: "snowflake_query operation self drv parameters ct interval_seconds
        = Some (Connect # OpenCursor ct # ExecuteAsync operation parameters # ?polled
                  @ [CloseCursor, CloseConnection], Inl Cancelled)"
    by (simp add: snowflake_query_def with_connection_def with_cursor_def conn sp
          del: replicate.simps)
  have f: "filter is_fetch ?polled = []"
    by (induction m) simp_all
  have c: "length (filter is_status_check ?polled) = Suc m"
    by (induction m) simp_all
  from a q f c show ?thesis by simp
qed

theorem cancelled_during_sleep_witness:
  "\<exists>tr. snowflake_query ''SELECT 1'' example_connector cancelling_driver NoParams
             SnowflakeCursor 1 = Some (tr, Inl Cancelled)
        \<and> tr = [Connect, OpenCursor SnowflakeCursor, ExecuteAsync ''SELECT 1'' NoParams,
                 GetQueryStatus 100 Running, Sleep 1, GetQueryStatus 100 Running, Sleep 1,
                 CloseCursor, CloseConnection]
        \<and> filter is_fetch tr = []"
proof -
  have conn: "get_connection example_connector cancelling_driver True = Inr ()"
    by (rule example_connects) (simp add: driver_defs)
  have sub: "execute_async (server cancelling_driver 0 ''SELECT 1'' NoParams) = Inr 100"
    by (simp add: driver_defs)
  have st: "statuses (server cancelling_driver 0 ''SELECT 1'' NoParams)
              = replicate (Suc (Suc 0)) Running @ [Succeeded]"
    by (simp add: driver_defs)
  have cancel: "cancelled_during (server cancelling_driver 0 ''SELECT 1'' NoParams) = Some (Suc 0)"
    by (simp add: driver_defs)
  from cancelled_during_sleep [OF conn sub st cancel, of SnowflakeCursor 1 "\<lambda>_. ([], Inr ())"]
  show ?thesis by simp
qed

lemma poll_settles:
  assumes "dropWhile is_still_running ss = s # rest"
    and "\<forall>j. c = Some j \<longrightarrow> i + length (takeWhile is_still_running ss) \<le> j"
  shows "\<exists>tr. poll iv qid c i ss
           = Some (tr, case get_query_status_throw_if_error s of
                         Inl e \<Rightarrow> Inl e | Inr _ \<Rightarrow> Inr ())"
  using assms
proof (induction ss arbitrary: i)
  case Nil
  then show ?case by simp
next
  case (Cons a later)
  show ?case
  proof (cases a)
    case Running
    with Cons.prems have d: "dropWhile is_still_running later = s # rest"
      and n: "\<forall>j. c = Some j \<longrightarrow> Suc i + length (takeWhile is_still_running later) \<le> j"
      and now: "c \<noteq> Some i"
      by auto
    from Cons.IH [OF d n] obtain tr where
      "poll iv qid c (Suc i) later
         = Some (tr, case get_query_status_throw_if_error s of
                       Inl e \<Rightarrow> Inl e | Inr _ \<Rightarrow> Inr ())"
      by blast
    with Running now show ?thesis by simp
  next
    case Succeeded
    with Cons.prems show ?thesis by simp
  next
    case FailedWithError
    with Cons.prems show ?thesis by simp
  qed
qed

lemma settles_submit:
  assumes "settles final run"
  shows "\<exists>sp. submit_and_poll run q p iv
           = Some (sp, case get_query_status_throw_if_error final of
                         Inl e \<Rightarrow> Inl e | Inr _ \<Rightarrow> Inr ())
         \<and> submitted sp = [q]"
proof -
  from assms obtain qid rest where
    sub: "execute_async run = Inr qid" and
    d: "dropWhile is_still_running (statuses run) = final # rest" and
    n: "\<forall>j. cancelled_during run = Some j
          \<longrightarrow> 0 + length (takeWhile is_still_running (statuses run)) \<le> j"
    by (auto simp: settles_def split: sum.splits list.splits option.splits)
  from poll_settles [OF d n] obtain tr where
    p: "poll iv qid (cancelled_during run) 0 (statuses run)
         = Some (tr, case get_query_status_throw_if_error final of
                       Inl e \<Rightarrow> Inl e | Inr _ \<Rightarrow> Inr ())"
    by blast
  have "\<exists>sp. submit_and_poll run q p iv
           = Some (sp, case get_query_status_throw_if_error final of
                         Inl e \<Rightarrow> Inl e | Inr _ \<Rightarrow> Inr ())"
    by (cases final) (simp_all add: submit_and_poll_def sub p)
  then obtain sp where
    sp: "submit_and_poll run q p iv
           = Some (sp, case get_query_status_throw_if_error final of
                         Inl e \<Rightarrow> Inl e | Inr _ \<Rightarrow> Inr ())"
    by blast
  from submit_and_poll_trace [OF sp] have "submitted sp = [q]" by simp
  with sp show ?thesis by (intro exI [of _ sp] conjI)
qed

lemma async_execute_operation_returns:
  assumes conn: "get_connection self drv True = Inr ()"
    and finished: "completes (server drv 0 q p)"
  shows "\<exists>tr. async_execute_operation self drv q p ct iv body
           = Some (tr, snd (body (server drv 0 q p)))"
proof -
  from finished have "settles Succeeded (server drv 0 q p)" by (simp add: completes_def)
  from settles_submit [OF this, of q p iv] obtain sp where
    sp: "submit_and_poll (server drv 0 q p) q p iv = Some (sp, Inr ())"
    by auto
  show ?thesis
    by (simp add: async_execute_operation_def with_connection_def with_cursor_def conn sp
          split: prod.split)
qed

lemma fetch_many_result:
  assumes "fetch_many self drv operation parameters None ct interval_seconds
             = Some (tr, Inr result)"
  shows "length result \<le> 5
         \<and> result = take 5 (rows (server drv 0 operation parameters))
         \<and> FetchMany (Some 5) \<in> set tr"
  using assms unfolding fetch_many_def Let_def
proof (cases rule: async_execute_operation_cases)
  case (loaded sp)
  then show ?thesis by (simp add: fetchmany_def)
qed simp_all

text \<open>
  C10. \<^verbatim>\<open>fetch_many\<close> called without a limit asks the cursor for a batch of 5, and the
  rows it returns are the first 5 of the result at most; it does return them when the
  session opens and the statement completes.
\<close>

theorem fetch_many_default_limit:
  "(\<forall>tr result.
      fetch_many self drv operation parameters None ct interval_seconds = Some (tr, Inr result)
      \<longrightarrow> length result \<le> 5
          \<and> result = take 5 (rows (server drv 0 operation parameters))
          \<and> FetchMany (Some 5) \<in> set tr)
   \<and> (get_connection self drv True = Inr () \<and> completes (server drv 0 operation parameters)
      \<longrightarrow> (\<exists>tr. fetch_many self drv operation parameters None ct interval_seconds
                  = Some (tr, Inr (take 5 (rows (server drv 0 operation parameters))))))"
proof (intro conjI allI impI)
  assume a: "get_connection self drv True = Inr () \<and> completes (server drv 0 operation parameters)"
  from async_execute_operation_returns [OF conjunct1 [OF a] conjunct2 [OF a],
      of ct interval_seconds "\<lambda>run. ([FetchMany (Some 5)], fetchmany (arraysize drv) (Some 5) (rows run))"]
  show "\<exists>tr. fetch_many self drv operation parameters None ct interval_seconds
                  = Some (tr, Inr (take 5 (rows (server drv 0 operation parameters))))"
    by (simp add: fetch_many_def fetchmany_def)
qed (use fetch_many_result in blast)+

theorem fetch_many_default_limit_witness:
  "\<exists>tr result.
      fetch_many example_connector example_driver ''SELECT 1'' NoParams None SnowflakeCursor 1
        = Some (tr, Inr result)
      \<and> length (rows (server example_driver 0 ''SELECT 1'' NoParams)) = 7
      \<and> length result = 5"
proof -
  have conn: "get_connection example_connector example_driver True = Inr ()"
    by (rule example_connects) (simp add: driver_defs)
  have finished: "completes (server example_driver 0 ''SELECT 1'' NoParams)"
    by (simp add: completes_def settles_def driver_defs)
  note batch = fetch_many_default_limit [of example_connector example_driver "''SELECT 1''" NoParams SnowflakeCursor 1]
  from mp [OF conjunct2 [OF batch] conjI [OF conn finished]] obtain tr where
    run: "fetch_many example_connector example_driver ''SELECT 1'' NoParams None SnowflakeCursor 1
            = Some (tr, Inr (take 5 (rows (server example_driver 0 ''SELECT 1'' NoParams))))"
    by blast
  have len: "length (rows (server example_driver 0 ''SELECT 1'' NoParams)) = 7"
    by (simp add: driver_defs)
  then have "length (take 5 (rows (server example_driver 0 ''SELECT 1'' NoParams))) = 5"
    by simp
  with run len show ?thesis by blast
qed

section \<open>Properties of the multi-operation runner\<close>

lemma snowflake_multiquery_cases:
  assumes "snowflake_multiquery queries c drv p ct b rtcr iv = Some (queries', tr, res)"
  obtains
    (no_session) e where
      "get_connection c drv True = Inl e" "queries' = queries" "tr = []" "res = Inl e"
  | (ran) body r where
      "get_connection c drv True = Inr ()"
      "queries' = (if b then BEGIN_TRANSACTION_STATEMENT # queries @ [END_TRANSACTION_STATEMENT]
                   else queries)"
      "run_queries drv p iv 0 queries' [] = Some (body, r)"
      "tr = Connect # OpenCursor ct # body @ [CloseCursor, CloseConnection]"
      "res = (case r of Inl e \<Rightarrow> Inl e
              | Inr results \<Rightarrow> Inr (if b \<and> \<not> rtcr then py_slice results 1 (- 1) else results))"
proof (cases "get_connection c drv True")
  case (Inl e)
  with assms have "queries' = queries" "tr = []" "res = Inl e"
    by (auto simp: snowflake_multiquery_def)
  with Inl show ?thesis by (rule no_session)
next
  case (Inr u)
  then have conn: "get_connection c drv True = Inr ()" by simp
  let ?qs = "if b then BEGIN_TRANSACTION_STATEMENT # queries @ [END_TRANSACTION_STATEMENT]
             else queries"
  show ?thesis
  proof (cases "run_queries drv p iv 0 ?qs []")
    case None
    with assms conn show ?thesis
      by (simp add: snowflake_multiquery_def with_cursor_def)
  next
    case (Some out)
    obtain body r where out: "out = (body, r)" by (cases out)
    from assms conn Some out
    have "queries' = ?qs"
         "tr = Connect # OpenCursor ct # body @ [CloseCursor, CloseConnection]"
         "res = (case r of Inl e \<Rightarrow> Inl e
              | Inr results \<Rightarrow> Inr (if b \<and> \<not> rtcr then py_slice results 1 (- 1) else results))"
      by (auto simp: snowflake_multiquery_def with_cursor_def Let_def split: sum.splits)
    with conn Some out show ?thesis by (auto intro: ran)
  qed
qed


lemma result_sets_Nil: "result_sets drv p n [] = []"
  by (simp add: result_sets_def)

lemma result_sets_Cons:
  "result_sets drv p n (q # qs) = rows (server drv n q p) # result_sets drv p (Suc n) qs"
proof -
  have "[n ..< Suc (n + length qs)] = n # [Suc n ..< Suc (n + length qs)]"
    by (rule upt_conv_Cons) simp
  then have "[n ..< n + length (q # qs)] = n # [Suc n ..< Suc n + length qs]"
    by (simp del: upt_Suc)
  then show ?thesis unfolding result_sets_def by simp
qed

lemma result_sets_append:
  "result_sets drv p n (xs @ ys)
     = result_sets drv p n xs @ result_sets drv p (n + length xs) ys"
  by (induction xs arbitrary: n) (simp_all add: result_sets_Nil result_sets_Cons)

lemma length_result_sets: "length (result_sets drv p n qs) = length qs"
  by (simp add: result_sets_def)

lemma result_sets_nth:
  "i < length qs \<Longrightarrow> result_sets drv p n qs ! i = rows (server drv (n + i) (qs ! i) p)"
  by (simp add: result_sets_def)

lemma run_queries_results:
  "run_queries drv p iv n qs acc = Some (tr, Inr results)
     \<Longrightarrow> results = acc @ result_sets drv p n qs"
proof (induction qs arbitrary: n acc tr)
  case Nil
  then show ?case by (simp add: result_sets_Nil)
next
  case (Cons q qs)
  from Cons.prems obtain tr' where
    "run_queries drv p iv (Suc n) qs (acc @ [rows (server drv n q p)]) = Some (tr', Inr results)"
    by (auto simp: Let_def split: option.splits sum.splits)
  from Cons.IH [OF this] show ?case by (simp add: result_sets_Cons)
qed

lemma py_slice_inner: "py_slice (x # ys @ [z]) 1 (- 1) = ys"
  by (simp add: py_slice_def py_bound_def)

lemma returned_results_shape:
  assumes run: "snowflake_multiquery ops snowflake_connector drv params ct True
                  return_transaction_control_results poll_frequency_seconds
                = Some (queries', tr, Inr results)"
  shows "(\<not> return_transaction_control_results \<longrightarrow>
            length results = length ops \<and> results = result_sets drv params 1 ops)
         \<and> (return_transaction_control_results \<longrightarrow>
              length results = length ops + 2
              \<and> results = rows (server drv 0 BEGIN_TRANSACTION_STATEMENT params)
                    # result_sets drv params 1 ops
                    @ [rows (server drv (Suc (length ops)) END_TRANSACTION_STATEMENT params)])
         \<and> (\<forall>i < length ops.
               results ! (if return_transaction_control_results then Suc i else i)
                 = rows (server drv (Suc i) (ops ! i) params))"
  using run
proof (cases rule: snowflake_multiquery_cases)
  case (no_session e)
  then show ?thesis by simp
next
  case (ran body r)
  let ?first = "rows (server drv 0 BEGIN_TRANSACTION_STATEMENT params)"
  let ?last = "rows (server drv (Suc (length ops)) END_TRANSACTION_STATEMENT params)"
  let ?mid = "result_sets drv params 1 ops"
  from ran(5) obtain every where r: "r = Inr every" and
    res: "results = (if \<not> return_transaction_control_results
                     then py_slice every 1 (- 1) else every)"
    by (cases r) auto
  from ran(2,3) r
  have "run_queries drv params poll_frequency_seconds 0
          (BEGIN_TRANSACTION_STATEMENT # ops @ [END_TRANSACTION_STATEMENT]) []
        = Some (body, Inr every)"
    by simp
  from run_queries_results [OF this]
  have every: "every = ?first # ?mid @ [?last]"
    by (simp add: result_sets_Cons result_sets_append result_sets_Nil)
  have nth: "?mid ! i = rows (server drv (Suc i) (ops ! i) params)" if "i < length ops" for i
    using result_sets_nth [OF that, of drv params 1] by simp
  show ?thesis
  proof (cases return_transaction_control_results)
    case True
    with res every have "results = ?first # ?mid @ [?last]" by simp
    with True nth show ?thesis
      by (simp add: length_result_sets nth_append)
  next
    case False
    with res every have "results = ?mid" by (simp add: py_slice_inner)
    with False nth show ?thesis by (simp add: length_result_sets)
  qed
qed

lemma run_queries_raise:
  "submit_and_poll (server drv n q p) q p iv = Some (sp, Inl e)
     \<Longrightarrow> run_queries drv p iv n (q # rest) acc = Some (sp, Inl e)"
  by simp

lemma run_queries_step:
  "submit_and_poll (server drv n q p) q p iv = Some (sp, Inr ())
     \<Longrightarrow> run_queries drv p iv (Suc n) rest (acc @ [rows (server drv n q p)]) = Some (tr', r)
     \<Longrightarrow> run_queries drv p iv n (q # rest) acc = Some (sp @ FetchAll # tr', r)"
  by simp

lemma snowflake_multiquery_raises:
  assumes "get_connection c drv True = Inr ()"
    and "run_queries drv p iv 0
           (if b then BEGIN_TRANSACTION_STATEMENT # queries @ [END_TRANSACTION_STATEMENT]
            else queries) [] = Some (body, Inl e)"
  shows "snowflake_multiquery queries c drv p ct b rtcr iv
           = Some (if b then BEGIN_TRANSACTION_STATEMENT # queries @ [END_TRANSACTION_STATEMENT]
                   else queries,
                   Connect # OpenCursor ct # body @ [CloseCursor, CloseConnection], Inl e)"
  using assms by (simp add: snowflake_multiquery_def with_cursor_def Let_def)

text \<open>
  C2. Three operations, the first of which completes and the second of which has its
  status check raise: the call raises \<open>StatusError\<close>, so no collected result set is
  returned, and the statements submitted are the first two operations only (after BEGIN
  when a transaction was asked for); the third operation is never submitted, nor is COMMIT.
\<close>

theorem status_error_aborts_sequence:
  assumes conn: "get_connection snowflake_connector drv True = Inr ()"
    and bracket: "as_transaction \<longrightarrow> completes (server drv 0 BEGIN_TRANSACTION_STATEMENT params)"
    and first: "completes (server drv (if as_transaction then 1 else 0) q1 params)"
    and second: "status_check_raises (server drv (if as_transaction then 2 else 1) q2 params)"
  shows "\<exists>queries' tr.
           snowflake_multiquery [q1, q2, q3] snowflake_connector drv params ct as_transaction
             return_transaction_control_results poll_frequency_seconds
             = Some (queries', tr, Inl StatusError)
           \<and> submitted tr = (if as_transaction then [BEGIN_TRANSACTION_STATEMENT] else []) @ [q1, q2]"
proof -
  let ?k = "if as_transaction then 1 else (0::nat)"
  let ?iv = poll_frequency_seconds
  from settles_submit [OF first [unfolded completes_def], of q1 params ?iv]
  obtain sp1 where
    sp1: "submit_and_poll (server drv ?k q1 params) q1 params ?iv = Some (sp1, Inr ())"
    and s1: "submitted sp1 = [q1]"
    by auto
  have k2: "(if as_transaction then 2 else 1) = Suc ?k" by simp
  from settles_submit [OF second [unfolded status_check_raises_def k2], of q2 params ?iv]
  obtain sp2 where
    sp2: "submit_and_poll (server drv (Suc ?k) q2 params) q2 params ?iv
            = Some (sp2, Inl StatusError)"
    and s2: "submitted sp2 = [q2]"
    by auto
  have tail: "run_queries drv params ?iv ?k (q1 # q2 # rest) acc
                = Some (sp1 @ FetchAll # sp2, Inl StatusError)" for rest acc
    by (rule run_queries_step [OF sp1]) (rule run_queries_raise [OF sp2])
  show ?thesis
  proof (cases as_transaction)
    case False
    with tail [of "[q3]" "[]"]
    have "run_queries drv params ?iv 0
            (if as_transaction
             then BEGIN_TRANSACTION_STATEMENT # [q1, q2, q3] @ [END_TRANSACTION_STATEMENT]
             else [q1, q2, q3]) []
          = Some (sp1 @ FetchAll # sp2, Inl StatusError)"
      by simp
    from snowflake_multiquery_raises [OF conn this] False s1 s2 show ?thesis
      by (simp add: submitted_append)
  next
    case True
    with bracket have "completes (server drv 0 BEGIN_TRANSACTION_STATEMENT params)" by simp
    from settles_submit [OF this [unfolded completes_def], of BEGIN_TRANSACTION_STATEMENT params ?iv]
    obtain sp0 where
      sp0: "submit_and_poll (server drv 0 BEGIN_TRANSACTION_STATEMENT params)
              BEGIN_TRANSACTION_STATEMENT params ?iv = Some (sp0, Inr ())"
      and s0: "submitted sp0 = [BEGIN_TRANSACTION_STATEMENT]"
      by auto
    from True tail
    have "run_queries drv params ?iv (Suc 0) (q1 # q2 # [q3, END_TRANSACTION_STATEMENT])
            ([] @ [rows (server drv 0 BEGIN_TRANSACTION_STATEMENT params)])
          = Some (sp1 @ FetchAll # sp2, Inl StatusError)"
      by simp
    from run_queries_step [OF sp0 this] True
    have "run_queries drv params ?iv 0
            (if as_transaction
             then BEGIN_TRANSACTION_STATEMENT # [q1, q2, q3] @ [END_TRANSACTION_STATEMENT]
             else [q1, q2, q3]) []
          = Some (sp0 @ FetchAll # sp1 @ FetchAll # sp2, Inl StatusError)"
      by simp
    from snowflake_multiquery_raises [OF conn this] True s0 s1 s2 show ?thesis
      by (simp add: submitted_append)
  qed
qed

theorem status_error_aborts_sequence_witness:
  "\<exists>queries' tr.
      snowflake_multiquery [''a'', ''b'', ''c''] example_connector failing_driver NoParams
        SnowflakeCursor False False 1 = Some (queries', tr, Inl StatusError)
      \<and> submitted tr = [''a'', ''b'']"
proof -
  have conn: "get_connection example_connector failing_driver True = Inr ()"
    by (rule example_connects) (simp add: driver_defs)
  have first: "completes (server failing_driver (if False then 1 else 0) ''a'' NoParams)"
    by (simp add: completes_def settles_def driver_defs)
  have second: "status_check_raises (server failing_driver (if False then 2 else 1) ''b'' NoParams)"
    by (simp add: status_check_raises_def settles_def driver_defs)
  from status_error_aborts_sequence [OF conn _ first second, of "''c''" SnowflakeCursor False 1]
  show ?thesis by simp
qed


lemma run_queries_completes:
  assumes "\<forall>i < length qs. completes (server drv (n + i) (qs ! i) p)"
  shows "\<exists>tr. run_queries drv p iv n qs acc = Some (tr, Inr (acc @ result_sets drv p n qs))"
  using assms
proof (induction qs arbitrary: n acc)
  case Nil
  show ?case by (simp add: result_sets_Nil)
next
  case (Cons q qs)
  from Cons.prems have "completes (server drv (n + 0) ((q # qs) ! 0) p)" by blast
  then have "settles Succeeded (server drv n q p)" by (simp add: completes_def)
  from settles_submit [OF this, of q p iv] obtain sp where
    sp: "submit_and_poll (server drv n q p) q p iv = Some (sp, Inr ())"
    by auto
  have "\<forall>i < length qs. completes (server drv (Suc n + i) (qs ! i) p)"
  proof (intro allI impI)
    fix i assume "i < length qs"
    then have "Suc i < length (q # qs)" by simp
    with Cons.prems have "completes (server drv (n + Suc i) ((q # qs) ! Suc i) p)" by blast
    then show "completes (server drv (Suc n + i) (qs ! i) p)" by simp
  qed
  from Cons.IH [OF this, of "acc @ [rows (server drv n q p)]"] obtain tr' where
    "run_queries drv p iv (Suc n) qs (acc @ [rows (server drv n q p)])
       = Some (tr', Inr ((acc @ [rows (server drv n q p)]) @ result_sets drv p (Suc n) qs))"
    by blast
  from run_queries_step [OF sp this] show ?case
    by (simp add: result_sets_Cons)
qed

lemma snowflake_multiquery_returns:
  assumes "get_connection c drv True = Inr ()"
    and "run_queries drv p iv 0
           (if b then BEGIN_TRANSACTION_STATEMENT # queries @ [END_TRANSACTION_STATEMENT]
            else queries) [] = Some (body, Inr every)"
  shows "snowflake_multiquery queries c drv p ct b rtcr iv
           = Some (if b then BEGIN_TRANSACTION_STATEMENT # queries @ [END_TRANSACTION_STATEMENT]
                   else queries,
                   Connect # OpenCursor ct # body @ [CloseCursor, CloseConnection],
                   Inr (if b \<and> \<not> rtcr then py_slice every 1 (- 1) else every))"
  using assms by (simp add: snowflake_multiquery_def with_cursor_def Let_def)

text \<open>
  C1. With \<^verbatim>\<open>as_transaction\<close> set, a call of \<^verbatim>\<open>snowflake_multiquery\<close> that returns
  gives one result set per caller operation, in the caller's order: without the control
  results the list has the length of the operation list (the result sets of BEGIN and
  COMMIT are cut off); with them it is two longer, the result set of BEGIN first and that
  of COMMIT last. The call does return when the session opens and every statement,
  BEGIN and COMMIT included, completes.
\<close>

theorem transaction_results_in_order:
  "(\<forall>queries' tr results.
      snowflake_multiquery ops snowflake_connector drv params ct True
        return_transaction_control_results poll_frequency_seconds
        = Some (queries', tr, Inr results)
      \<longrightarrow>
        (\<not> return_transaction_control_results \<longrightarrow>
            length results = length ops \<and> results = result_sets drv params 1 ops)
        \<and> (return_transaction_control_results \<longrightarrow>
              length results = length ops + 2
              \<and> results = rows (server drv 0 BEGIN_TRANSACTION_STATEMENT params)
                    # result_sets drv params 1 ops
                    @ [rows (server drv (Suc (length ops)) END_TRANSACTION_STATEMENT params)])
        \<and> (\<forall>i < length ops.
               results ! (if return_transaction_control_results then Suc i else i)
                 = rows (server drv (Suc i) (ops ! i) params)))
   \<and> (get_connection snowflake_connector drv True = Inr ()
        \<and> (\<forall>i < length ops + 2.
              completes (server drv i
                ((BEGIN_TRANSACTION_STATEMENT # ops @ [END_TRANSACTION_STATEMENT]) ! i) params))
      \<longrightarrow>
        (\<exists>queries' tr results.
           snowflake_multiquery ops snowflake_connector drv params ct True
             return_transaction_control_results poll_frequency_seconds
             = Some (queries', tr, Inr results)))"
proof (intro conjI allI impI)
  assume a: "get_connection snowflake_connector drv True = Inr ()
        \<and> (\<forall>i < length ops + 2.
              completes (server drv i
                ((BEGIN_TRANSACTION_STATEMENT # ops @ [END_TRANSACTION_STATEMENT]) ! i) params))"
  let ?qs = "BEGIN_TRANSACTION_STATEMENT # ops @ [END_TRANSACTION_STATEMENT]"
  from a have "\<forall>i < length ?qs. completes (server drv (0 + i) (?qs ! i) params)"
    by simp
  from run_queries_completes [OF this, of poll_frequency_seconds "[]"] obtain body where
    "run_queries drv params poll_frequency_seconds 0 ?qs []
       = Some (body, Inr ([] @ result_sets drv params 0 ?qs))"
    by blast
  then have "run_queries drv params poll_frequency_seconds 0
               (if True then ?qs else ops) []
             = Some (body, Inr ([] @ result_sets drv params 0 ?qs))"
    by simp
  from snowflake_multiquery_returns [OF conjunct1 [OF a] this]
  show "\<exists>queries' tr results.
           snowflake_multiquery ops snowflake_connector drv params ct True
             return_transaction_control_results poll_frequency_seconds
             = Some (queries', tr, Inr results)"
    by blast
qed (use returned_results_shape in blast)+

theorem transaction_results_in_order_witness:
  "\<exists>queries' tr results tr' results'.
      snowflake_multiquery [''SELECT 1'', ''SELECT 2''] example_connector example_driver NoParams
        SnowflakeCursor True False 1 = Some (queries', tr, Inr results)
      \<and> length results = 2
      \<and> snowflake_multiquery [''SELECT 1'', ''SELECT 2''] example_connector example_driver NoParams
        SnowflakeCursor True True 1 = Some (queries', tr', Inr results')
      \<and> length results' = 4"
proof -
  let ?ops = "[''SELECT 1'', ''SELECT 2'']"
  have conn: "get_connection example_connector example_driver True = Inr ()"
    by (rule example_connects) (simp add: driver_defs)
  have every: "\<forall>i < length ?ops + 2.
      completes (server example_driver i
        ((BEGIN_TRANSACTION_STATEMENT # ?ops @ [END_TRANSACTION_STATEMENT]) ! i) NoParams)"
    by (simp add: completes_def settles_def driver_defs)
  note stripping = transaction_results_in_order [of ?ops example_connector example_driver NoParams SnowflakeCursor False 1]
  note keeping = transaction_results_in_order [of ?ops example_connector example_driver NoParams SnowflakeCursor True 1]
  from mp [OF conjunct2 [OF stripping] conjI [OF conn every]]
  obtain queries' tr results where stripped:
    "snowflake_multiquery ?ops example_connector example_driver NoParams
        SnowflakeCursor True False 1 = Some (queries', tr, Inr results)"
    by blast
  from mp [OF conjunct2 [OF keeping] conjI [OF conn every]]
  obtain queries'' tr' results' where kept:
    "snowflake_multiquery ?ops example_connector example_driver NoParams
        SnowflakeCursor True True 1 = Some (queries'', tr', Inr results')"
    by blast
  have same: "queries'' = queries'"
    using stripped kept unfolding snowflake_multiquery_def conn
    by (simp add: Let_def split: option.splits prod.splits sum.splits)
  have nf: "\<not> False" by simp
  from conjunct1 [OF stripping] stripped
  have "(\<not> False \<longrightarrow> length results = length ?ops \<and> results = result_sets example_driver NoParams 1 ?ops)"
    by blast
  from mp [OF this nf, THEN conjunct1] have a: "length results = 2" by simp
  from conjunct1 [OF keeping] kept
  have "True \<longrightarrow> length results' = length ?ops + 2
              \<and> results' = rows (server example_driver 0 BEGIN_TRANSACTION_STATEMENT NoParams)
                    # result_sets example_driver NoParams 1 ?ops
                    @ [rows (server example_driver (Suc (length ?ops)) END_TRANSACTION_STATEMENT NoParams)]"
    by blast
  from mp [OF this TrueI, THEN conjunct1] have b: "length results' = 4" by simp
  from stripped kept a b same show ?thesis by blast
qed





end
